theory Spec2Isabelle
  imports Main "HOL-Library.Word"
begin

section \<open>The graphics library as seen by the shader program\<close>

text \<open>
  \<open>GLuint\<close>, \<open>GLint\<close> and the C++ \<open>int\<close> are 32-bit values. A conversion between them
  (\<open>static_cast<int>\<close>, \<open>static_cast<GLuint>\<close>) keeps the bits, so all three are
  \<open>32 word\<close>; the signed ones are read with \<open>sint\<close>, and \<open>-1\<close> is the word \<open>0xFFFFFFFF\<close>.
\<close>

type_synonym GLuint = "32 word"
type_synonym GLint = "32 word"
type_synonym c_int = "32 word"

datatype shader_type = GL_VERTEX_SHADER | GL_FRAGMENT_SHADER

datatype pname = GL_COMPILE_STATUS | GL_INFO_LOG_LENGTH | GL_LINK_STATUS

definition GL_FALSE :: GLint where
  "GL_FALSE = 0"

text \<open>Every call \<open>es2_shader.h\<close> makes into the graphics library, with its arguments.\<close>

datatype gl_call =
    glCreateShader shader_type
  | glShaderSource GLuint string
  | glCompileShader GLuint
  | glGetShaderiv GLuint pname
  | glGetShaderInfoLog GLuint GLint
  | glCreateProgram
  | glAttachShader GLuint GLuint
  | glLinkProgram GLuint
  | glGetProgramiv GLuint pname
  | glGetProgramInfoLog GLuint GLint
  | glDetachShader GLuint GLuint
  | glDeleteShader GLuint
  | glGetAttribLocation GLuint string
  | glGetUniformLocation GLuint string
  | glDeleteProgram GLuint
  | glUseProgram GLuint

text \<open>
  The library itself is not part of the repository. It is a parameter: a driver answers
  a call from the calls made before it. \<open>gl_ret\<close> is the value a call returns or
  stores through its out-pointer (unused for a \<open>void\<close> call without one), \<open>gl_text\<close> the
  text a call writes into the info-log buffer.
\<close>

record gl_driver =
  gl_ret :: "gl_call list \<Rightarrow> gl_call \<Rightarrow> 32 word"
  gl_text :: "gl_call list \<Rightarrow> gl_call \<Rightarrow> string"

text \<open>What the program does to the outside: the calls made so far, and the text on \<open>std::cerr\<close>.\<close>

record world =
  gl_trace :: "gl_call list"
  cerr :: string

definition gl :: "gl_driver \<Rightarrow> gl_call \<Rightarrow> world \<Rightarrow> 32 word \<times> world" where
  "gl d c w = (gl_ret d (gl_trace w) c, w\<lparr>gl_trace := gl_trace w @ [c]\<rparr>)"

definition gl_void :: "gl_driver \<Rightarrow> gl_call \<Rightarrow> world \<Rightarrow> world" where
  "gl_void d c w = w\<lparr>gl_trace := gl_trace w @ [c]\<rparr>"

definition gl_log :: "gl_driver \<Rightarrow> gl_call \<Rightarrow> world \<Rightarrow> string \<times> world" where
  "gl_log d c w = (gl_text d (gl_trace w) c, w\<lparr>gl_trace := gl_trace w @ [c]\<rparr>)"

definition endl :: string where
  "endl = [CHR 0x0A]"

definition new_calls :: "world \<Rightarrow> world \<Rightarrow> gl_call list" where
  "new_calls w w' = drop (length (gl_trace w)) (gl_trace w')"

section \<open>ES2Shader\<close>

text \<open>
  Modelled from the spec: the members \<open>ES2Shader\<close> inherits from its base class
  \<open>Shader\<close> (\<open>renderer/shader.h\<close> is not among the sources). The spec gives a shader
  program the source text of a vertex and of a fragment stage and, for attributes and for
  uniforms, a mapping from a name to a location, \<open>-1\<close> until resolved. The types are
  those \<open>es2_shader.h\<close> uses them at: \<open>_program\<close> is an \<open>int\<close> compared with
  \<open>-1\<close>, \<open>_dead\<close> a \<open>bool\<close>, and \<open>_attributes\<close> and \<open>_uniforms\<close> are maps iterated
  in key order, as association lists in the order of the iteration. Names are the
  source's without the leading underscore (\<open>_compile_shader\<close> is \<open>compile_shader\<close>).
\<close>

record shader =
  vertex_shader_source :: string
  fragment_shader_source :: string
  attributes :: "(string \<times> GLint) list"
  uniforms :: "(string \<times> GLint) list"
  program :: c_int
  dead :: bool

text \<open>\<open>m[k] = v\<close> on a \<open>std::map\<close>.\<close>

fun map_assign :: "string \<Rightarrow> GLint \<Rightarrow> (string \<times> GLint) list \<Rightarrow> (string \<times> GLint) list" where
  "map_assign k v [] = [(k, v)]"
| "map_assign k v ((k', v') # m) = (if k' = k then (k, v) # m else (k', v') # map_assign k v m)"

definition cleanup :: "gl_driver \<Rightarrow> shader \<Rightarrow> world \<Rightarrow> shader \<times> world" where
  "cleanup d s w =
     (let w1 = (if program s \<noteq> - 1 then gl_void d (glDeleteProgram (program s)) w else w)
      in (s\<lparr>program := - 1, dead := False\<rparr>, w1))"

definition use :: "gl_driver \<Rightarrow> shader \<Rightarrow> world \<Rightarrow> world" where
  "use d s w = (if program s \<noteq> - 1 then gl_void d (glUseProgram (program s)) w else w)"

definition compile_shader :: "gl_driver \<Rightarrow> shader_type \<Rightarrow> shader \<Rightarrow> world \<Rightarrow> c_int \<times> shader \<times> world" where
  "compile_shader d shader_type s w0 =
     (let shader_source =
            (if shader_type = GL_VERTEX_SHADER then vertex_shader_source s
             else fragment_shader_source s);
          (shader_object, w1) = gl d (glCreateShader shader_type) w0;
          w2 = gl_void d (glShaderSource shader_object shader_source) w1;
          w3 = gl_void d (glCompileShader shader_object) w2;
          (status, w4) = gl d (glGetShaderiv shader_object GL_COMPILE_STATUS) w3
      in if status = GL_FALSE then
           (let (info_log_length, w5) = gl d (glGetShaderiv shader_object GL_INFO_LOG_LENGTH) w4;
                w6 = (if 0 < sint info_log_length then
                        (let (info_log, w') =
                               gl_log d (glGetShaderInfoLog shader_object info_log_length) w5
                         in w'\<lparr>cerr := cerr w' @ ''Failed to compile a vertex shader'' @ endl
                               @ ''Compilation log:'' @ endl @ info_log @ endl @ endl\<rparr>)
                      else w5)
            in (- 1, s\<lparr>program := - 1\<rparr>, w6))
         else (shader_object, s, w4))"

text \<open>
  The two loops of \<open>_link_shader\<close>: each entry of the map, in order, has its location
  asked for and stored under its name.
\<close>

fun resolve_attributes ::
  "gl_driver \<Rightarrow> GLuint \<Rightarrow> (string \<times> GLint) list \<Rightarrow> (string \<times> GLint) list \<Rightarrow> world
     \<Rightarrow> (string \<times> GLint) list \<times> world" where
  "resolve_attributes d p [] m w = (m, w)"
| "resolve_attributes d p (attribute # rest) m w =
     (let (loc, w') = gl d (glGetAttribLocation p (fst attribute)) w
      in resolve_attributes d p rest (map_assign (fst attribute) loc m) w')"

fun resolve_uniforms ::
  "gl_driver \<Rightarrow> GLuint \<Rightarrow> (string \<times> GLint) list \<Rightarrow> (string \<times> GLint) list \<Rightarrow> world
     \<Rightarrow> (string \<times> GLint) list \<times> world" where
  "resolve_uniforms d p [] m w = (m, w)"
| "resolve_uniforms d p (uniform # rest) m w =
     (let (loc, w') = gl d (glGetUniformLocation p (fst uniform)) w
      in resolve_uniforms d p rest (map_assign (fst uniform) loc m) w')"

definition link_shader ::
  "gl_driver \<Rightarrow> GLuint \<Rightarrow> GLuint \<Rightarrow> shader \<Rightarrow> world \<Rightarrow> c_int \<times> shader \<times> world" where
  "link_shader d vertex_shader_object fragment_shader_object s w0 =
     (let (shader_program, w1) = gl d glCreateProgram w0;
          w2 = gl_void d (glAttachShader shader_program vertex_shader_object) w1;
          w3 = gl_void d (glAttachShader shader_program fragment_shader_object) w2;
          w4 = gl_void d (glLinkProgram shader_program) w3;
          (status, w5) = gl d (glGetProgramiv shader_program GL_LINK_STATUS) w4
      in if status = GL_FALSE then
           (let (info_log_length, w6) = gl d (glGetProgramiv shader_program GL_INFO_LOG_LENGTH) w5;
                w7 = (if 0 < sint info_log_length then
                        (let (info_log, w') =
                               gl_log d (glGetProgramInfoLog shader_program info_log_length) w6
                         in w'\<lparr>cerr := cerr w' @ ''Failed to link a shader program'' @ endl
                               @ ''Linker log:'' @ endl @ info_log @ endl @ endl\<rparr>)
                      else w6)
            in (- 1, s\<lparr>program := - 1\<rparr>, w7))
         else
           (let w6 = gl_void d (glDetachShader shader_program vertex_shader_object) w5;
                w7 = gl_void d (glDetachShader shader_program fragment_shader_object) w6;
                w8 = gl_void d (glDeleteShader vertex_shader_object) w7;
                w9 = gl_void d (glDeleteShader fragment_shader_object) w8;
                (attrs, w10) = resolve_attributes d shader_program (attributes s) (attributes s) w9;
                (unis, w11) = resolve_uniforms d shader_program (uniforms s) (uniforms s) w10
            in (shader_program, s\<lparr>attributes := attrs, uniforms := unis\<rparr>, w11)))"

definition compile :: "gl_driver \<Rightarrow> shader \<Rightarrow> world \<Rightarrow> shader \<times> world" where
  "compile d s w =
     (let (s1, w1) = cleanup d s w;
          (vertex_shader_object, s2, w2) = compile_shader d GL_VERTEX_SHADER s1 w1
      in if vertex_shader_object = - 1 then (s2\<lparr>dead := True\<rparr>, w2)
         else
           (let (fragment_shader_object, s3, w3) = compile_shader d GL_FRAGMENT_SHADER s2 w2
            in if fragment_shader_object = - 1 then (s3\<lparr>dead := True\<rparr>, w3)
               else
                 (let (shader_program, s4, w4) =
                        link_shader d vertex_shader_object fragment_shader_object s3 w3
                  in if shader_program = - 1 then (s4\<lparr>dead := True\<rparr>, w4)
                     else (s4\<lparr>program := shader_program\<rparr>, w4))))"

section \<open>What the library answered during a run of compile\<close>

text \<open>
  The claims speak of a stage that compiles or fails and of a link that succeeds or
  fails. In the model these are the answers of the driver at the moment \<open>compile()\<close>
  asks, that is, for the history of calls made up to then. The definitions of this section
  name these histories and answers; the lemmas \<open>compile_shader_ok\<close>,
  \<open>compile_shader_fail\<close>, \<open>link_shader_ok\<close> and \<open>link_shader_fail\<close> below show that they
  are what \<open>compile_shader\<close> and \<open>link_shader\<close> read.
\<close>

text \<open>The calls \<open>cleanup()\<close> makes in state \<open>s\<close>.\<close>

definition cleanup_calls :: "shader \<Rightarrow> gl_call list" where
  "cleanup_calls s = (if program s \<noteq> - 1 then [glDeleteProgram (program s)] else [])"

text \<open>
  One run of \<open>compile_shader\<close> for the stage \<open>t\<close> from the world \<open>w\<close>: the name the
  library gives the new shader object, the calls up to the query of the compile status,
  and the library's answers to that query, to the query of the log length and to the
  request for the log.
\<close>

definition stage_source :: "shader_type \<Rightarrow> shader \<Rightarrow> string" where
  "stage_source t s = (if t = GL_VERTEX_SHADER then vertex_shader_source s else fragment_shader_source s)"

definition stage_object :: "gl_driver \<Rightarrow> shader_type \<Rightarrow> world \<Rightarrow> GLuint" where
  "stage_object d t w = gl_ret d (gl_trace w) (glCreateShader t)"

definition stage_calls :: "gl_driver \<Rightarrow> shader_type \<Rightarrow> string \<Rightarrow> world \<Rightarrow> gl_call list" where
  "stage_calls d t src w =
     [glCreateShader t, glShaderSource (stage_object d t w) src,
      glCompileShader (stage_object d t w), glGetShaderiv (stage_object d t w) GL_COMPILE_STATUS]"

definition stage_status :: "gl_driver \<Rightarrow> shader_type \<Rightarrow> string \<Rightarrow> world \<Rightarrow> GLint" where
  "stage_status d t src w =
     gl_ret d (gl_trace w @ butlast (stage_calls d t src w)) (glGetShaderiv (stage_object d t w) GL_COMPILE_STATUS)"

definition stage_log_length :: "gl_driver \<Rightarrow> shader_type \<Rightarrow> string \<Rightarrow> world \<Rightarrow> GLint" where
  "stage_log_length d t src w =
     gl_ret d (gl_trace w @ stage_calls d t src w) (glGetShaderiv (stage_object d t w) GL_INFO_LOG_LENGTH)"

definition stage_log :: "gl_driver \<Rightarrow> shader_type \<Rightarrow> string \<Rightarrow> world \<Rightarrow> string" where
  "stage_log d t src w =
     gl_text d (gl_trace w @ stage_calls d t src w @ [glGetShaderiv (stage_object d t w) GL_INFO_LOG_LENGTH])
       (glGetShaderInfoLog (stage_object d t w) (stage_log_length d t src w))"

text \<open>
  What a failed stage writes to \<open>std::cerr\<close>, and the world it leaves: the info log is
  fetched and written only when its length is positive.
\<close>

definition compile_report :: "string \<Rightarrow> string" where
  "compile_report info_log =
     ''Failed to compile a vertex shader'' @ endl @ ''Compilation log:'' @ endl @ info_log @ endl @ endl"

definition failed_stage_world :: "gl_driver \<Rightarrow> shader_type \<Rightarrow> string \<Rightarrow> world \<Rightarrow> world" where
  "failed_stage_world d t src w =
     (if 0 < sint (stage_log_length d t src w)
      then w\<lparr>gl_trace := gl_trace w @ stage_calls d t src w
                 @ [glGetShaderiv (stage_object d t w) GL_INFO_LOG_LENGTH,
                    glGetShaderInfoLog (stage_object d t w) (stage_log_length d t src w)],
             cerr := cerr w @ compile_report (stage_log d t src w)\<rparr>
      else w\<lparr>gl_trace := gl_trace w @ stage_calls d t src w
                 @ [glGetShaderiv (stage_object d t w) GL_INFO_LOG_LENGTH]\<rparr>)"

text \<open>
  The same for one run of \<open>link_shader\<close> on the shader objects \<open>v\<close> and \<open>f\<close>;
  \<open>release_calls\<close> are the four calls that detach and delete them.
\<close>

definition link_program :: "gl_driver \<Rightarrow> world \<Rightarrow> GLuint" where
  "link_program d w = gl_ret d (gl_trace w) glCreateProgram"

definition link_calls :: "gl_driver \<Rightarrow> GLuint \<Rightarrow> GLuint \<Rightarrow> world \<Rightarrow> gl_call list" where
  "link_calls d v f w =
     [glCreateProgram, glAttachShader (link_program d w) v, glAttachShader (link_program d w) f,
      glLinkProgram (link_program d w), glGetProgramiv (link_program d w) GL_LINK_STATUS]"

definition link_status :: "gl_driver \<Rightarrow> GLuint \<Rightarrow> GLuint \<Rightarrow> world \<Rightarrow> GLint" where
  "link_status d v f w =
     gl_ret d (gl_trace w @ butlast (link_calls d v f w)) (glGetProgramiv (link_program d w) GL_LINK_STATUS)"

definition link_log_length :: "gl_driver \<Rightarrow> GLuint \<Rightarrow> GLuint \<Rightarrow> world \<Rightarrow> GLint" where
  "link_log_length d v f w =
     gl_ret d (gl_trace w @ link_calls d v f w) (glGetProgramiv (link_program d w) GL_INFO_LOG_LENGTH)"

definition link_log :: "gl_driver \<Rightarrow> GLuint \<Rightarrow> GLuint \<Rightarrow> world \<Rightarrow> string" where
  "link_log d v f w =
     gl_text d (gl_trace w @ link_calls d v f w @ [glGetProgramiv (link_program d w) GL_INFO_LOG_LENGTH])
       (glGetProgramInfoLog (link_program d w) (link_log_length d v f w))"

definition link_report :: "string \<Rightarrow> string" where
  "link_report info_log =
     ''Failed to link a shader program'' @ endl @ ''Linker log:'' @ endl @ info_log @ endl @ endl"

definition release_calls :: "GLuint \<Rightarrow> GLuint \<Rightarrow> GLuint \<Rightarrow> gl_call list" where
  "release_calls p v f = [glDetachShader p v, glDetachShader p f, glDeleteShader v, glDeleteShader f]"

text \<open>The location stored for a name is what the library answered to a call of this run.\<close>

definition answered :: "gl_driver \<Rightarrow> gl_call list \<Rightarrow> gl_call \<Rightarrow> 32 word \<Rightarrow> bool" where
  "answered d tr c v = (\<exists>h rest. tr = h @ c # rest \<and> gl_ret d h c = v)"

text \<open>
  The worlds in which \<open>compile()\<close>, started in state \<open>s\<close> and world \<open>w\<close>, begins the
  vertex stage, the fragment stage and the link, and what the library answers there.
\<close>

definition vertex_world :: "gl_driver \<Rightarrow> shader \<Rightarrow> world \<Rightarrow> world" where
  "vertex_world d s w = snd (cleanup d s w)"

definition fragment_world :: "gl_driver \<Rightarrow> shader \<Rightarrow> world \<Rightarrow> world" where
  "fragment_world d s w =
     snd (snd (compile_shader d GL_VERTEX_SHADER (fst (cleanup d s w)) (vertex_world d s w)))"

definition link_world :: "gl_driver \<Rightarrow> shader \<Rightarrow> world \<Rightarrow> world" where
  "link_world d s w =
     snd (snd (compile_shader d GL_FRAGMENT_SHADER (fst (cleanup d s w)) (fragment_world d s w)))"

definition vertex_status :: "gl_driver \<Rightarrow> shader \<Rightarrow> world \<Rightarrow> GLint" where
  "vertex_status d s w = stage_status d GL_VERTEX_SHADER (vertex_shader_source s) (vertex_world d s w)"

definition vertex_object :: "gl_driver \<Rightarrow> shader \<Rightarrow> world \<Rightarrow> GLuint" where
  "vertex_object d s w = stage_object d GL_VERTEX_SHADER (vertex_world d s w)"

definition fragment_status :: "gl_driver \<Rightarrow> shader \<Rightarrow> world \<Rightarrow> GLint" where
  "fragment_status d s w = stage_status d GL_FRAGMENT_SHADER (fragment_shader_source s) (fragment_world d s w)"

definition fragment_object :: "gl_driver \<Rightarrow> shader \<Rightarrow> world \<Rightarrow> GLuint" where
  "fragment_object d s w = stage_object d GL_FRAGMENT_SHADER (fragment_world d s w)"

definition program_status :: "gl_driver \<Rightarrow> shader \<Rightarrow> world \<Rightarrow> GLint" where
  "program_status d s w = link_status d (vertex_object d s w) (fragment_object d s w) (link_world d s w)"

definition program_object :: "gl_driver \<Rightarrow> shader \<Rightarrow> world \<Rightarrow> GLuint" where
  "program_object d s w = link_program d (link_world d s w)"

text \<open>
  The world a failed link leaves, and the world of a successful one after the shader
  objects are released.
\<close>

definition failed_link_world :: "gl_driver \<Rightarrow> GLuint \<Rightarrow> GLuint \<Rightarrow> world \<Rightarrow> world" where
  "failed_link_world d v f w =
     (if 0 < sint (link_log_length d v f w)
      then w\<lparr>gl_trace := gl_trace w @ link_calls d v f w
                 @ [glGetProgramiv (link_program d w) GL_INFO_LOG_LENGTH,
                    glGetProgramInfoLog (link_program d w) (link_log_length d v f w)],
             cerr := cerr w @ link_report (link_log d v f w)\<rparr>
      else w\<lparr>gl_trace := gl_trace w @ link_calls d v f w
                 @ [glGetProgramiv (link_program d w) GL_INFO_LOG_LENGTH]\<rparr>)"

definition released_world :: "gl_driver \<Rightarrow> shader \<Rightarrow> world \<Rightarrow> world" where
  "released_world d s w =
     (link_world d s w)\<lparr>gl_trace := gl_trace (link_world d s w)
        @ link_calls d (vertex_object d s w) (fragment_object d s w) (link_world d s w)
        @ release_calls (program_object d s w) (vertex_object d s w) (fragment_object d s w)\<rparr>"

text \<open>
  \<open>gl_accepts\<close>: both stages compile and the link succeeds, by the library's status
  answers. \<open>names_valid\<close>: none of the three names the library hands out is
  \<open>0xFFFFFFFF\<close>, which \<open>compile()\<close> would read as \<open>-1\<close>.
\<close>

definition gl_accepts :: "gl_driver \<Rightarrow> shader \<Rightarrow> world \<Rightarrow> bool" where
  "gl_accepts d s w \<longleftrightarrow>
     vertex_status d s w \<noteq> GL_FALSE \<and> fragment_status d s w \<noteq> GL_FALSE \<and> program_status d s w \<noteq> GL_FALSE"

definition names_valid :: "gl_driver \<Rightarrow> shader \<Rightarrow> world \<Rightarrow> bool" where
  "names_valid d s w \<longleftrightarrow>
     vertex_object d s w \<noteq> - 1 \<and> fragment_object d s w \<noteq> - 1 \<and> program_object d s w \<noteq> - 1"

definition vertex_log_length :: "gl_driver \<Rightarrow> shader \<Rightarrow> world \<Rightarrow> GLint" where
  "vertex_log_length d s w =
     stage_log_length d GL_VERTEX_SHADER (vertex_shader_source s) (vertex_world d s w)"

definition vertex_log :: "gl_driver \<Rightarrow> shader \<Rightarrow> world \<Rightarrow> string" where
  "vertex_log d s w = stage_log d GL_VERTEX_SHADER (vertex_shader_source s) (vertex_world d s w)"

definition fragment_log_length :: "gl_driver \<Rightarrow> shader \<Rightarrow> world \<Rightarrow> GLint" where
  "fragment_log_length d s w =
     stage_log_length d GL_FRAGMENT_SHADER (fragment_shader_source s) (fragment_world d s w)"

definition fragment_log :: "gl_driver \<Rightarrow> shader \<Rightarrow> world \<Rightarrow> string" where
  "fragment_log d s w = stage_log d GL_FRAGMENT_SHADER (fragment_shader_source s) (fragment_world d s w)"

definition program_log_length :: "gl_driver \<Rightarrow> shader \<Rightarrow> world \<Rightarrow> GLint" where
  "program_log_length d s w =
     link_log_length d (vertex_object d s w) (fragment_object d s w) (link_world d s w)"

definition program_log :: "gl_driver \<Rightarrow> shader \<Rightarrow> world \<Rightarrow> string" where
  "program_log d s w = link_log d (vertex_object d s w) (fragment_object d s w) (link_world d s w)"

text \<open>
  All calls of a run of \<open>compile()\<close> up to the query of the link status.
\<close>

definition build_calls :: "gl_driver \<Rightarrow> shader \<Rightarrow> world \<Rightarrow> gl_call list" where
  "build_calls d s w =
     cleanup_calls s @ stage_calls d GL_VERTEX_SHADER (vertex_shader_source s) (vertex_world d s w)
       @ stage_calls d GL_FRAGMENT_SHADER (fragment_shader_source s) (fragment_world d s w)
       @ link_calls d (vertex_object d s w) (fragment_object d s w) (link_world d s w)"

section \<open>Concrete drivers and shaders\<close>

text \<open>
  A driver that names the vertex object 1 and the fragment object 2, rejects the source
  text \<open>bad\<close>, and takes the program's name and the link status as parameters.
\<close>

definition scripted_driver :: "GLuint \<Rightarrow> GLint \<Rightarrow> gl_driver" where
  "scripted_driver program_name link_result =
     \<lparr>gl_ret = (\<lambda>h c. case c of
          glCreateShader t \<Rightarrow> (case t of GL_VERTEX_SHADER \<Rightarrow> 1 | GL_FRAGMENT_SHADER \<Rightarrow> 2)
        | glCreateProgram \<Rightarrow> program_name
        | glGetShaderiv obj pn \<Rightarrow>
            (case pn of GL_COMPILE_STATUS \<Rightarrow> (if glShaderSource obj ''bad'' \<in> set h then 0 else 1)
             | _ \<Rightarrow> 6)
        | glGetProgramiv p pn \<Rightarrow> (case pn of GL_LINK_STATUS \<Rightarrow> link_result | _ \<Rightarrow> 6)
        | glGetAttribLocation p n \<Rightarrow> (if n = ''position'' then 0 else - 1)
        | glGetUniformLocation p n \<Rightarrow> (if n = ''point_size'' then 3 else - 1)
        | _ \<Rightarrow> 0),
      gl_text = (\<lambda>h c. ''error'')\<rparr>"

definition sample_shader :: "string \<Rightarrow> string \<Rightarrow> shader" where
  "sample_shader vs fs =
     \<lparr>vertex_shader_source = vs, fragment_shader_source = fs,
      attributes = [(''color'', - 1), (''position'', - 1)],
      uniforms = [(''point_size'', - 1), (''texture_enabled'', - 1)],
      program = - 1, dead = False\<rparr>"

definition quiet :: world where
  "quiet = \<lparr>gl_trace = [], cerr = []\<rparr>"

section \<open>The geometry generators of the two sample programs\<close>

text \<open>
  A \<open>float\<close> is its 32 bits. The arithmetic on floats is not part of the repository: the
  operations the generators use are parameters, and so are the constants \<open>asr::pi\<close> and
  \<open>asr::two_pi\<close>. Literals are their IEEE 754 bit patterns.
\<close>

type_synonym float = "32 word"

record float_ops =
  fadd :: "float \<Rightarrow> float \<Rightarrow> float"
  fsub :: "float \<Rightarrow> float \<Rightarrow> float"
  fmul :: "float \<Rightarrow> float \<Rightarrow> float"
  fdiv :: "float \<Rightarrow> float \<Rightarrow> float"
  of_uint :: "32 word \<Rightarrow> float"
  cosf :: "float \<Rightarrow> float"
  sinf :: "float \<Rightarrow> float"
  pi :: float
  two_pi :: float

definition f0_0 :: float where
  "f0_0 = 0x00000000"

definition f0_5 :: float where
  "f0_5 = 0x3F000000"

definition f1_0 :: float where
  "f1_0 = 0x3F800000"

text \<open>\<open>asr::Vertex\<close>: position, normal, color, texture coordinates, in this order.\<close>

record Vertex =
  v_x :: float
  v_y :: float
  v_z :: float
  v_nx :: float
  v_ny :: float
  v_nz :: float
  v_r :: float
  v_g :: float
  v_b :: float
  v_a :: float
  v_u :: float
  v_v :: float

text \<open>
  Storage. A \<open>std::vector\<close> cannot grow without bound: \<open>push_back\<close> throws
  (\<open>std::bad_alloc\<close>, or \<open>std::length_error\<close> beyond \<open>max_size()\<close>) when the storage for one
  more element cannot be had, and so does the copy of the two vectors that
  \<open>std::make_pair(vertices, indices)\<close> makes. How much there is depends on the machine and
  on the run, so it is a parameter: the number of elements the vertex vector and the index
  vector can hold in this run, and whether the copies of vectors of two given lengths can
  be made. The generators do not catch the exception: it ends the call. One value,
  \<open>bad_alloc\<close>, stands for whichever of the two exceptions is thrown.
\<close>

datatype exn = bad_alloc

record memory =
  vertex_capacity :: nat
  index_capacity :: nat
  pair_fits :: "nat \<Rightarrow> nat \<Rightarrow> bool"

definition push_back :: "nat \<Rightarrow> 'a list \<Rightarrow> 'a \<Rightarrow> exn + 'a list" where
  "push_back capacity xs x = (if length xs < capacity then Inr (xs @ [x]) else Inl bad_alloc)"

text \<open>Several \<open>push_back\<close> calls on the same vector, one after the other.\<close>

fun push_all :: "nat \<Rightarrow> 'a list \<Rightarrow> 'a list \<Rightarrow> exn + 'a list" where
  "push_all capacity xs [] = Inr xs"
| "push_all capacity xs (y # ys) =
     (case push_back capacity xs y of Inl e \<Rightarrow> Inl e | Inr xs' \<Rightarrow> push_all capacity xs' ys)"

definition make_pair :: "memory \<Rightarrow> 'a list \<Rightarrow> 'b list \<Rightarrow> exn + ('a list \<times> 'b list)" where
  "make_pair mem vertices indices =
     (if pair_fits mem (length vertices) (length indices) then Inr (vertices, indices)
      else Inl bad_alloc)"

text \<open>
  \<open>for (unsigned int i = i0; i <= n; ++i) body\<close>. The counter wraps around at \<open>2^32\<close>, so
  with \<open>n = 0xFFFFFFFF\<close> the test never fails and the loop ends only when its body throws.
  The result is an option, \<open>None\<close> when the loop neither returns nor throws; \<open>Inl\<close> is an
  exception thrown by the body, which ends the loop.
\<close>

partial_function (option) for_le ::
  "32 word \<Rightarrow> 32 word \<Rightarrow> (32 word \<Rightarrow> 'a \<Rightarrow> (exn + 'a) option) \<Rightarrow> 'a \<Rightarrow> (exn + 'a) option" where
  "for_le i n body acc =
     (if i \<le> n
      then Option.bind (body i acc)
             (\<lambda>r. case r of Inl e \<Rightarrow> Some (Inl e) | Inr acc' \<Rightarrow> for_le (i + 1) n body acc')
      else Some (Inr acc))"

declare for_le.simps [code]

text \<open>
  \<open>for (unsigned int i = i0; i < n; ++i) body\<close>: it ends, since \<open>i < n\<close> keeps \<open>i + 1\<close> from
  wrapping.
\<close>

function for_lt :: "32 word \<Rightarrow> 32 word \<Rightarrow> (32 word \<Rightarrow> 'a \<Rightarrow> exn + 'a) \<Rightarrow> 'a \<Rightarrow> exn + 'a" where
  "for_lt i n body acc =
     (if i < n
      then (case body i acc of Inl e \<Rightarrow> Inl e | Inr acc' \<Rightarrow> for_lt (i + 1) n body acc')
      else Inr acc)"
  by pat_completeness auto
termination
proof (relation "measure (\<lambda>(i, n, body, acc). unat n - unat i)")
  fix i n :: "32 word" and body :: "32 word \<Rightarrow> 'a \<Rightarrow> exn + 'a" and acc acc' :: 'a
  assume "i < n"
  then have "unat i < unat n" by (simp add: word_less_nat_alt)
  moreover have "unat n < 2 ^ 32"
    using unsigned_less [of n] by simp
  ultimately have "unat i < unat n" and "unat (i + 1) = Suc (unat i)"
    by (simp_all add: unat_word_ariths)
  then show "((i + 1, n, body, acc'), (i, n, body, acc))
      \<in> measure (\<lambda>(i, n, body, acc). unat n - unat i)"
    by simp
qed simp

text \<open>
  The three generators. Each fills \<open>vertices\<close>, then \<open>indices\<close>, then returns the pair;
  the result is \<open>None\<close> when the call neither returns nor throws, \<open>Some (Inl e)\<close> when it
  throws and \<open>Some (Inr (vertices, indices))\<close> when it returns.
\<close>

definition generate_rectangle_geometry_data ::
  "memory \<Rightarrow> float_ops \<Rightarrow> float \<Rightarrow> float \<Rightarrow> 32 word \<Rightarrow> 32 word
     \<Rightarrow> (exn + Vertex list \<times> 32 word list) option" where
  "generate_rectangle_geometry_data mem ops width height width_segments_count height_segments_count =
     (let half_height = fmul ops height f0_5;
          segment_height = fdiv ops height (of_uint ops height_segments_count);
          half_width = fmul ops width f0_5;
          segment_width = fdiv ops width (of_uint ops width_segments_count)
      in Option.bind
           (for_le 0 height_segments_count
              (\<lambda>i vertices.
                 let y = fsub ops (fmul ops (of_uint ops i) segment_height) half_height;
                     v = fsub ops f1_0 (fdiv ops (of_uint ops i) (of_uint ops height_segments_count))
                 in for_le 0 width_segments_count
                      (\<lambda>j vertices.
                         let x = fsub ops (fmul ops (of_uint ops j) segment_width) half_width;
                             u = fdiv ops (of_uint ops j) (of_uint ops width_segments_count)
                         in Some (push_back (vertex_capacity mem) vertices
                              \<lparr>v_x = x, v_y = y, v_z = f0_0,
                               v_nx = f0_0, v_ny = f0_0, v_nz = f1_0,
                               v_r = f1_0, v_g = f1_0, v_b = f1_0, v_a = f1_0,
                               v_u = u, v_v = v\<rparr>))
                      vertices)
              [])
           (\<lambda>filled. Some
              (case filled of Inl e \<Rightarrow> Inl e
               | Inr vertices \<Rightarrow>
                   (case for_lt 0 height_segments_count
                           (\<lambda>i indices.
                              for_lt 0 width_segments_count
                                (\<lambda>j indices.
                                   let index_a = i * (width_segments_count + 1) + j;
                                       index_b = index_a + 1;
                                       index_c = index_a + (width_segments_count + 1);
                                       index_d = index_c + 1
                                   in push_all (index_capacity mem) indices
                                        [index_a, index_b, index_c, index_b, index_d, index_c])
                                indices)
                           []
                    of Inl e \<Rightarrow> Inl e
                     | Inr indices \<Rightarrow> make_pair mem vertices indices))))"

definition generate_rectangle_edges_data ::
  "memory \<Rightarrow> float_ops \<Rightarrow> float \<Rightarrow> float \<Rightarrow> 32 word \<Rightarrow> 32 word
     \<Rightarrow> (exn + Vertex list \<times> 32 word list) option" where
  "generate_rectangle_edges_data mem ops width height width_segments_count height_segments_count =
     (let half_height = fmul ops height f0_5;
          segment_height = fdiv ops height (of_uint ops height_segments_count);
          half_width = fmul ops width f0_5;
          segment_width = fdiv ops width (of_uint ops width_segments_count)
      in Option.bind
           (for_le 0 height_segments_count
              (\<lambda>i vertices.
                 let y = fsub ops (fmul ops (of_uint ops i) segment_height) half_height;
                     v = fsub ops f1_0 (fdiv ops (of_uint ops i) (of_uint ops height_segments_count))
                 in for_le 0 width_segments_count
                      (\<lambda>j vertices.
                         let x = fsub ops (fmul ops (of_uint ops j) segment_width) half_width;
                             u = fdiv ops (of_uint ops j) (of_uint ops width_segments_count)
                         in Some (push_back (vertex_capacity mem) vertices
                              \<lparr>v_x = x, v_y = y, v_z = f0_0,
                               v_nx = f0_0, v_ny = f0_0, v_nz = f1_0,
                               v_r = f1_0, v_g = f1_0, v_b = f1_0, v_a = f1_0,
                               v_u = u, v_v = v\<rparr>))
                      vertices)
              [])
           (\<lambda>filled. Some
              (case filled of Inl e \<Rightarrow> Inl e
               | Inr vertices \<Rightarrow>
                   (case for_lt 0 height_segments_count
                           (\<lambda>i indices.
                              for_lt 0 width_segments_count
                                (\<lambda>j indices.
                                   let index_a = i * (width_segments_count + 1) + j;
                                       index_b = index_a + 1;
                                       index_c = index_a + (width_segments_count + 1);
                                       index_d = index_c + 1
                                   in push_all (index_capacity mem) indices
                                        [index_a, index_b, index_b, index_c, index_c, index_a,
                                         index_b, index_d, index_d, index_c, index_c, index_b])
                                indices)
                           []
                    of Inl e \<Rightarrow> Inl e
                     | Inr indices \<Rightarrow> make_pair mem vertices indices))))"


text \<open>
  \<open>enough_memory mem nv ni\<close>: in this run \<open>nv\<close> vertices and \<open>ni\<close> indices can be stored and
  the pair of the two vectors can be made.
\<close>

definition enough_memory :: "memory \<Rightarrow> nat \<Rightarrow> nat \<Rightarrow> bool" where
  "enough_memory mem nv ni \<longleftrightarrow>
     nv \<le> vertex_capacity mem \<and> ni \<le> index_capacity mem \<and> pair_fits mem nv ni"

text \<open>
  An operation table to run the generators on: the claims about them do not depend on what
  the operations compute, and this one does integer arithmetic on the bits.
\<close>

definition bit_ops :: float_ops where
  "bit_ops = \<lparr>fadd = (\<lambda>a b. a + b), fsub = (\<lambda>a b. a - b), fmul = (\<lambda>a b. a * b),
     fdiv = (\<lambda>a b. a div b), of_uint = (\<lambda>n. n), cosf = (\<lambda>a. a), sinf = (\<lambda>a. a),
     pi = 3, two_pi = 6\<rparr>"

text \<open>A run in which each vector can hold \<open>capacity\<close> elements and the pair can be made.\<close>

definition room :: "nat \<Rightarrow> memory" where
  "room capacity =
     \<lparr>vertex_capacity = capacity, index_capacity = capacity, pair_fits = (\<lambda>nv ni. True)\<rparr>"



section \<open>The fragment shader of the two sample programs\<close>

text \<open>
  Vectors of floats, as GLSL and glm have them; the components \<open>r g b a\<close> of a GLSL
  \<open>vec4\<close> are its \<open>x y z w\<close>.
\<close>

record vec3 =
  v3_x :: float
  v3_y :: float
  v3_z :: float

record vec4 =
  v4_x :: float
  v4_y :: float
  v4_z :: float
  v4_w :: float

text \<open>
  The arithmetic of the GPU on one float is a parameter, as is the built-in \<open>mix\<close>; on
  vectors the operators and \<open>mix\<close> (with a float as its third argument) work component
  by component.
\<close>

record glsl_ops =
  gl_add :: "float \<Rightarrow> float \<Rightarrow> float"
  gl_sub :: "float \<Rightarrow> float \<Rightarrow> float"
  gl_mul :: "float \<Rightarrow> float \<Rightarrow> float"
  gl_mix :: "float \<Rightarrow> float \<Rightarrow> float \<Rightarrow> float"

definition vec4_add :: "glsl_ops \<Rightarrow> vec4 \<Rightarrow> vec4 \<Rightarrow> vec4" where
  "vec4_add ops p q =
     \<lparr>v4_x = gl_add ops (v4_x p) (v4_x q), v4_y = gl_add ops (v4_y p) (v4_y q),
      v4_z = gl_add ops (v4_z p) (v4_z q), v4_w = gl_add ops (v4_w p) (v4_w q)\<rparr>"

definition vec4_sub :: "glsl_ops \<Rightarrow> vec4 \<Rightarrow> vec4 \<Rightarrow> vec4" where
  "vec4_sub ops p q =
     \<lparr>v4_x = gl_sub ops (v4_x p) (v4_x q), v4_y = gl_sub ops (v4_y p) (v4_y q),
      v4_z = gl_sub ops (v4_z p) (v4_z q), v4_w = gl_sub ops (v4_w p) (v4_w q)\<rparr>"

definition vec4_mul :: "glsl_ops \<Rightarrow> vec4 \<Rightarrow> vec4 \<Rightarrow> vec4" where
  "vec4_mul ops p q =
     \<lparr>v4_x = gl_mul ops (v4_x p) (v4_x q), v4_y = gl_mul ops (v4_y p) (v4_y q),
      v4_z = gl_mul ops (v4_z p) (v4_z q), v4_w = gl_mul ops (v4_w p) (v4_w q)\<rparr>"

definition rgb :: "vec4 \<Rightarrow> vec3" where
  "rgb p = \<lparr>v3_x = v4_x p, v3_y = v4_y p, v3_z = v4_z p\<rparr>"

definition vec3_mix :: "glsl_ops \<Rightarrow> vec3 \<Rightarrow> vec3 \<Rightarrow> float \<Rightarrow> vec3" where
  "vec3_mix ops p q t =
     \<lparr>v3_x = gl_mix ops (v3_x p) (v3_x q) t, v3_y = gl_mix ops (v3_y p) (v3_y q) t,
      v3_z = gl_mix ops (v3_z p) (v3_z q) t\<rparr>"

text \<open>\<open>p.rgb = q\<close>: the first three components are replaced, the fourth stays.\<close>

definition assign_rgb :: "vec4 \<Rightarrow> vec3 \<Rightarrow> vec4" where
  "assign_rgb p q = p\<lparr>v4_x := v3_x q, v4_y := v3_y q, v4_z := v3_z q\<rparr>"

definition TEXTURING_MODE_ADDITION :: int where
  "TEXTURING_MODE_ADDITION = 0"

definition TEXTURING_MODE_SUBTRACTION :: int where
  "TEXTURING_MODE_SUBTRACTION = 1"

definition TEXTURING_MODE_REVERSE_SUBTRACTION :: int where
  "TEXTURING_MODE_REVERSE_SUBTRACTION = 2"

definition TEXTURING_MODE_MODULATION :: int where
  "TEXTURING_MODE_MODULATION = 3"

definition TEXTURING_MODE_DECALING :: int where
  "TEXTURING_MODE_DECALING = 4"

text \<open>
  \<open>main()\<close> of \<open>Fragment_Shader_Source\<close>, the same text in \<open>rectangle_test.cpp\<close> and in
  \<open>transform1_test.cpp\<close>. Its inputs are the two uniforms, the varying \<open>fragment_color\<close>
  and the texel that \<open>texture2D(texture_sampler, fragment_texture_coordinates)\<close> samples; its
  result is \<open>gl_FragColor\<close>.
\<close>

definition Fragment_Shader_main :: "glsl_ops \<Rightarrow> bool \<Rightarrow> int \<Rightarrow> vec4 \<Rightarrow> vec4 \<Rightarrow> vec4" where
  "Fragment_Shader_main ops texture_enabled texturing_mode fragment_color texel =
     (let gl_FragColor = fragment_color
      in if texture_enabled then
           (if texturing_mode = TEXTURING_MODE_ADDITION then vec4_add ops gl_FragColor texel
            else if texturing_mode = TEXTURING_MODE_MODULATION then vec4_mul ops gl_FragColor texel
            else if texturing_mode = TEXTURING_MODE_DECALING then
              (let texel_color = texel
               in assign_rgb gl_FragColor
                    (vec3_mix ops (rgb gl_FragColor) (rgb texel_color) (v4_w texel_color)))
            else if texturing_mode = TEXTURING_MODE_SUBTRACTION then vec4_sub ops gl_FragColor texel
            else if texturing_mode = TEXTURING_MODE_REVERSE_SUBTRACTION
              then vec4_sub ops texel gl_FragColor
            else gl_FragColor)
         else gl_FragColor)"

section \<open>Mesh\<close>

text \<open>
  \<open>std::shared_ptr<T>\<close> and \<open>std::weak_ptr<Object>\<close>: the address of the object
  referred to, or none. The two are different types, the first owning and the second not.
\<close>

datatype 'a shared_ptr = shared_ptr "nat option"

datatype Object_weak_ptr = weak_ptr "nat option"

typedecl Geometry

typedecl Material

definition glm_vec4 :: "float \<Rightarrow> vec4" where
  "glm_vec4 scalar = \<lparr>v4_x = scalar, v4_y = scalar, v4_z = scalar, v4_w = scalar\<rparr>"

definition glm_vec3_of_vec4 :: "vec4 \<Rightarrow> vec3" where
  "glm_vec3_of_vec4 p = \<lparr>v3_x = v4_x p, v3_y = v4_y p, v3_z = v4_z p\<rparr>"

text \<open>
  Modelled from the spec: the base class \<open>Object\<close> (\<open>objects/object.h\<close> is not among the
  sources). The spec has it as a named entity with position, rotation (Euler angles),
  scale and a non-owning (weak) reference to an optional parent; its constructor is
  taken to store the five values it is given.
\<close>

record Object =
  object_name :: string
  object_position :: vec3
  object_rotation :: vec3
  object_scale :: vec3
  object_parent :: Object_weak_ptr

record Mesh = Object +
  geometry :: "Geometry shared_ptr"
  material :: "Material shared_ptr"

text \<open>The constructor of \<open>Mesh\<close> with all six arguments, then its default arguments.\<close>

definition Mesh ::
  "Geometry shared_ptr \<Rightarrow> Material shared_ptr \<Rightarrow> vec3 \<Rightarrow> vec3 \<Rightarrow> vec3 \<Rightarrow> Object_weak_ptr \<Rightarrow> Mesh" where
  "Mesh geometry_arg material_arg position rotation scale parent =
     \<lparr>object_name = ''untitled mesh'', object_position = position, object_rotation = rotation,
      object_scale = scale, object_parent = parent,
      geometry = geometry_arg, material = material_arg\<rparr>"

definition Mesh_default_position :: vec3 where
  "Mesh_default_position = glm_vec3_of_vec4 (glm_vec4 f0_0)"

definition Mesh_default_rotation :: vec3 where
  "Mesh_default_rotation = glm_vec3_of_vec4 (glm_vec4 f0_0)"

definition Mesh_default_scale :: vec3 where
  "Mesh_default_scale = glm_vec3_of_vec4 (glm_vec4 f1_0)"

definition Mesh_default_parent :: Object_weak_ptr where
  "Mesh_default_parent = weak_ptr None"

definition Mesh_of :: "Geometry shared_ptr \<Rightarrow> Material shared_ptr \<Rightarrow> Mesh" where
  "Mesh_of geometry_arg material_arg =
     Mesh geometry_arg material_arg Mesh_default_position Mesh_default_rotation
       Mesh_default_scale Mesh_default_parent"

definition get_geometry :: "Mesh \<Rightarrow> Geometry shared_ptr" where
  "get_geometry mesh = geometry mesh"

definition get_material :: "Mesh \<Rightarrow> Material shared_ptr" where
  "get_material mesh = material mesh"

section \<open>Properties of the shader program\<close>

lemma cleanup_eq:
  "cleanup d s w = (s\<lparr>program := - 1, dead := False\<rparr>, w\<lparr>gl_trace := gl_trace w @ cleanup_calls s\<rparr>)"
  by (simp add: cleanup_def cleanup_calls_def gl_void_def)

lemma compile_shader_ok:
  "stage_status d t (stage_source t s) w \<noteq> GL_FALSE \<Longrightarrow>
   compile_shader d t s w =
     (stage_object d t w, s, w\<lparr>gl_trace := gl_trace w @ stage_calls d t (stage_source t s) w\<rparr>)"
  by (simp add: compile_shader_def stage_status_def stage_calls_def stage_object_def stage_source_def
      gl_def gl_void_def Let_def)

lemma compile_shader_fail:
  "stage_status d t (stage_source t s) w = GL_FALSE \<Longrightarrow>
   compile_shader d t s w = (- 1, s\<lparr>program := - 1\<rparr>, failed_stage_world d t (stage_source t s) w)"
  by (simp add: compile_shader_def stage_status_def stage_calls_def stage_object_def stage_source_def
      failed_stage_world_def stage_log_length_def stage_log_def compile_report_def gl_def gl_void_def gl_log_def Let_def)

lemma link_shader_fail:
  "link_status d v f w = GL_FALSE \<Longrightarrow>
   link_shader d v f s w =
     (- 1, s\<lparr>program := - 1\<rparr>,
      if 0 < sint (link_log_length d v f w)
      then w\<lparr>gl_trace := gl_trace w @ link_calls d v f w
                 @ [glGetProgramiv (link_program d w) GL_INFO_LOG_LENGTH,
                    glGetProgramInfoLog (link_program d w) (link_log_length d v f w)],
             cerr := cerr w @ link_report (link_log d v f w)\<rparr>
      else w\<lparr>gl_trace := gl_trace w @ link_calls d v f w
                 @ [glGetProgramiv (link_program d w) GL_INFO_LOG_LENGTH]\<rparr>)"
  by (simp add: link_shader_def link_status_def link_calls_def link_program_def
      link_log_length_def link_log_def link_report_def gl_def gl_void_def gl_log_def Let_def)

lemma link_shader_ok:
  "link_status d v f w \<noteq> GL_FALSE \<Longrightarrow>
   link_shader d v f s w =
     (let w9 = w\<lparr>gl_trace := gl_trace w @ link_calls d v f w @ release_calls (link_program d w) v f\<rparr>;
          r1 = resolve_attributes d (link_program d w) (attributes s) (attributes s) w9;
          r2 = resolve_uniforms d (link_program d w) (uniforms s) (uniforms s) (snd r1)
      in (link_program d w, s\<lparr>attributes := fst r1, uniforms := fst r2\<rparr>, snd r2))"
  by (simp add: link_shader_def link_status_def link_calls_def link_program_def release_calls_def
      gl_def gl_void_def Let_def split_def)

lemma resolve_attributes_trace:
  "gl_trace (snd (resolve_attributes d p xs m w)) = gl_trace w @ map (\<lambda>a. glGetAttribLocation p (fst a)) xs"
  by (induction xs arbitrary: m w) (simp_all add: gl_def split_def)

lemma resolve_uniforms_trace:
  "gl_trace (snd (resolve_uniforms d p xs m w)) = gl_trace w @ map (\<lambda>a. glGetUniformLocation p (fst a)) xs"
  by (induction xs arbitrary: m w) (simp_all add: gl_def split_def)

lemma resolve_attributes_cerr: "cerr (snd (resolve_attributes d p xs m w)) = cerr w"
  by (induction xs arbitrary: m w) (simp_all add: gl_def split_def)

lemma resolve_uniforms_cerr: "cerr (snd (resolve_uniforms d p xs m w)) = cerr w"
  by (induction xs arbitrary: m w) (simp_all add: gl_def split_def)

lemma map_of_map_assign: "map_of (map_assign k v m) = (map_of m)(k \<mapsto> v)"
  by (induction m) (auto simp: fun_eq_iff)

lemma keys_map_assign: "k \<in> set (map fst m) \<Longrightarrow> map fst (map_assign k v m) = map fst m"
  by (induction m) force+

lemma resolve_attributes_keys:
  "set (map fst xs) \<subseteq> set (map fst m) \<Longrightarrow> map fst (fst (resolve_attributes d p xs m w)) = map fst m"
proof (induction xs arbitrary: m w)
  case Nil
  then show ?case by simp
next
  case (Cons a xs)
  have k: "map fst (map_assign (fst a) v m) = map fst m" for v
    using Cons.prems by (simp add: keys_map_assign)
  have "set (map fst xs) \<subseteq> set (map fst (map_assign (fst a) v m))" for v
    using Cons.prems by (simp only: k) simp
  from Cons.IH [OF this] show ?case
    by (simp add: split_def gl_def k)
qed

lemma resolve_uniforms_keys:
  "set (map fst xs) \<subseteq> set (map fst m) \<Longrightarrow> map fst (fst (resolve_uniforms d p xs m w)) = map fst m"
proof (induction xs arbitrary: m w)
  case Nil
  then show ?case by simp
next
  case (Cons a xs)
  have k: "map fst (map_assign (fst a) v m) = map fst m" for v
    using Cons.prems by (simp add: keys_map_assign)
  have "set (map fst xs) \<subseteq> set (map fst (map_assign (fst a) v m))" for v
    using Cons.prems by (simp only: k) simp
  from Cons.IH [OF this] show ?case
    by (simp add: split_def gl_def k)
qed

lemma resolve_attributes_other:
  "name \<notin> fst ` set xs \<Longrightarrow> map_of (fst (resolve_attributes d p xs m w)) name = map_of m name"
  by (induction xs arbitrary: m w) (simp_all add: split_def gl_def map_of_map_assign)

lemma resolve_uniforms_other:
  "name \<notin> fst ` set xs \<Longrightarrow> map_of (fst (resolve_uniforms d p xs m w)) name = map_of m name"
  by (induction xs arbitrary: m w) (simp_all add: split_def gl_def map_of_map_assign)

lemma resolve_attributes_value:
  "name \<in> fst ` set xs \<Longrightarrow>
   \<exists>v. map_of (fst (resolve_attributes d p xs m w)) name = Some v
     \<and> answered d (gl_trace (snd (resolve_attributes d p xs m w))) (glGetAttribLocation p name) v"
proof (induction xs arbitrary: m w)
  case Nil
  then show ?case by simp
next
  case (Cons a xs)
  define w' where "w' = w\<lparr>gl_trace := gl_trace w @ [glGetAttribLocation p (fst a)]\<rparr>"
  define m' where "m' = map_assign (fst a) (gl_ret d (gl_trace w) (glGetAttribLocation p (fst a))) m"
  have step: "resolve_attributes d p (a # xs) m w = resolve_attributes d p xs m' w'"
    by (simp add: gl_def w'_def m'_def)
  show ?case
  proof (cases "name \<in> fst ` set xs")
    case True
    from Cons.IH [OF True, of m' w'] show ?thesis by (simp only: step)
  next
    case False
    with Cons.prems have n: "name = fst a" by auto
    have "map_of (fst (resolve_attributes d p xs m' w')) name = map_of m' name"
      using False by (rule resolve_attributes_other)
    then have v: "map_of (fst (resolve_attributes d p xs m' w')) name
        = Some (gl_ret d (gl_trace w) (glGetAttribLocation p name))"
      by (simp add: m'_def n map_of_map_assign)
    have "gl_trace (snd (resolve_attributes d p xs m' w'))
        = gl_trace w @ glGetAttribLocation p name # map (\<lambda>a. glGetAttribLocation p (fst a)) xs"
      by (simp add: resolve_attributes_trace w'_def n)
    then have "answered d (gl_trace (snd (resolve_attributes d p xs m' w'))) (glGetAttribLocation p name)
        (gl_ret d (gl_trace w) (glGetAttribLocation p name))"
      unfolding answered_def by blast
    with v show ?thesis by (simp only: step) blast
  qed
qed

lemma stage_source_simps [simp]:
  "stage_source GL_VERTEX_SHADER s = vertex_shader_source s"
  "stage_source GL_FRAGMENT_SHADER s = fragment_shader_source s"
  by (simp_all add: stage_source_def)

lemma vertex_world_eq: "vertex_world d s w = w\<lparr>gl_trace := gl_trace w @ cleanup_calls s\<rparr>"
  by (simp add: vertex_world_def cleanup_eq)

lemma compile_vertex_fail:
  assumes "vertex_status d s w = GL_FALSE"
  shows "compile d s w = (s\<lparr>program := - 1, dead := True\<rparr>, fragment_world d s w)"
    and "fragment_world d s w = failed_stage_world d GL_VERTEX_SHADER (vertex_shader_source s) (vertex_world d s w)"
proof -
  define w1 where "w1 = w\<lparr>gl_trace := gl_trace w @ cleanup_calls s\<rparr>"
  have w1: "vertex_world d s w = w1" by (simp add: vertex_world_eq w1_def)
  have cl: "cleanup d s w = (s\<lparr>program := - 1, dead := False\<rparr>, w1)"
    by (simp add: cleanup_eq w1_def)
  have c: "compile_shader d GL_VERTEX_SHADER (s\<lparr>program := - 1, dead := False\<rparr>) w1
      = (- 1, s\<lparr>program := - 1, dead := False\<rparr>,
         failed_stage_world d GL_VERTEX_SHADER (vertex_shader_source s) w1)"
    using assms by (simp add: compile_shader_fail vertex_status_def w1)
  show "fragment_world d s w = failed_stage_world d GL_VERTEX_SHADER (vertex_shader_source s) (vertex_world d s w)"
    by (simp add: fragment_world_def cl c w1)
  then show "compile d s w = (s\<lparr>program := - 1, dead := True\<rparr>, fragment_world d s w)"
    by (simp add: compile_def cl c w1)
qed

lemma compile_vertex_ok:
  assumes "vertex_status d s w \<noteq> GL_FALSE"
  shows "compile_shader d GL_VERTEX_SHADER (fst (cleanup d s w)) (snd (cleanup d s w))
      = (vertex_object d s w, s\<lparr>program := - 1, dead := False\<rparr>, fragment_world d s w)"
    and "gl_trace (fragment_world d s w)
      = gl_trace (vertex_world d s w) @ stage_calls d GL_VERTEX_SHADER (vertex_shader_source s) (vertex_world d s w)"
    and "cerr (fragment_world d s w) = cerr w"
proof -
  define w1 where "w1 = w\<lparr>gl_trace := gl_trace w @ cleanup_calls s\<rparr>"
  have w1: "vertex_world d s w = w1" by (simp add: vertex_world_eq w1_def)
  have cl: "cleanup d s w = (s\<lparr>program := - 1, dead := False\<rparr>, w1)"
    by (simp add: cleanup_eq w1_def)
  have c: "compile_shader d GL_VERTEX_SHADER (s\<lparr>program := - 1, dead := False\<rparr>) w1
      = (stage_object d GL_VERTEX_SHADER w1, s\<lparr>program := - 1, dead := False\<rparr>,
         w1\<lparr>gl_trace := gl_trace w1 @ stage_calls d GL_VERTEX_SHADER (vertex_shader_source s) w1\<rparr>)"
    using assms by (simp add: compile_shader_ok vertex_status_def w1)
  have f: "fragment_world d s w
      = w1\<lparr>gl_trace := gl_trace w1 @ stage_calls d GL_VERTEX_SHADER (vertex_shader_source s) w1\<rparr>"
    by (simp add: fragment_world_def cl c w1)
  show "compile_shader d GL_VERTEX_SHADER (fst (cleanup d s w)) (snd (cleanup d s w))
      = (vertex_object d s w, s\<lparr>program := - 1, dead := False\<rparr>, fragment_world d s w)"
    by (simp add: cl c f vertex_object_def w1)
  show "gl_trace (fragment_world d s w)
      = gl_trace (vertex_world d s w) @ stage_calls d GL_VERTEX_SHADER (vertex_shader_source s) (vertex_world d s w)"
    by (simp add: f w1)
  show "cerr (fragment_world d s w) = cerr w"
    by (simp add: f w1_def)
qed

lemma compile_vertex_object_bad:
  assumes "vertex_status d s w \<noteq> GL_FALSE" "vertex_object d s w = - 1"
  shows "compile d s w = (s\<lparr>program := - 1, dead := True\<rparr>, fragment_world d s w)"
  using compile_vertex_ok(1) [OF assms(1)] assms(2)
  by (simp add: compile_def split_def)

lemma compile_fragment_fail:
  assumes "vertex_status d s w \<noteq> GL_FALSE" "vertex_object d s w \<noteq> - 1"
    and "fragment_status d s w = GL_FALSE"
  shows "compile d s w = (s\<lparr>program := - 1, dead := True\<rparr>, link_world d s w)"
    and "link_world d s w = failed_stage_world d GL_FRAGMENT_SHADER (fragment_shader_source s) (fragment_world d s w)"
proof -
  have c: "compile_shader d GL_FRAGMENT_SHADER (s\<lparr>program := - 1, dead := False\<rparr>) (fragment_world d s w)
      = (- 1, s\<lparr>program := - 1, dead := False\<rparr>,
         failed_stage_world d GL_FRAGMENT_SHADER (fragment_shader_source s) (fragment_world d s w))"
    using assms(3) by (simp add: compile_shader_fail fragment_status_def)
  show l: "link_world d s w = failed_stage_world d GL_FRAGMENT_SHADER (fragment_shader_source s) (fragment_world d s w)"
    by (simp add: link_world_def cleanup_eq c)
  show "compile d s w = (s\<lparr>program := - 1, dead := True\<rparr>, link_world d s w)"
    using compile_vertex_ok(1) [OF assms(1)] assms(2)
    by (simp add: compile_def split_def c l)
qed

lemma compile_fragment_ok:
  assumes "fragment_status d s w \<noteq> GL_FALSE"
  shows "compile_shader d GL_FRAGMENT_SHADER (s\<lparr>program := - 1, dead := False\<rparr>) (fragment_world d s w)
      = (fragment_object d s w, s\<lparr>program := - 1, dead := False\<rparr>, link_world d s w)"
    and "gl_trace (link_world d s w)
      = gl_trace (fragment_world d s w) @ stage_calls d GL_FRAGMENT_SHADER (fragment_shader_source s) (fragment_world d s w)"
    and "cerr (link_world d s w) = cerr (fragment_world d s w)"
proof -
  have c: "compile_shader d GL_FRAGMENT_SHADER (s\<lparr>program := - 1, dead := False\<rparr>) (fragment_world d s w)
      = (stage_object d GL_FRAGMENT_SHADER (fragment_world d s w), s\<lparr>program := - 1, dead := False\<rparr>,
         (fragment_world d s w)\<lparr>gl_trace := gl_trace (fragment_world d s w)
            @ stage_calls d GL_FRAGMENT_SHADER (fragment_shader_source s) (fragment_world d s w)\<rparr>)"
    using assms by (simp add: compile_shader_ok fragment_status_def)
  have l: "link_world d s w = (fragment_world d s w)\<lparr>gl_trace := gl_trace (fragment_world d s w)
            @ stage_calls d GL_FRAGMENT_SHADER (fragment_shader_source s) (fragment_world d s w)\<rparr>"
    by (simp add: link_world_def cleanup_eq c)
  show "compile_shader d GL_FRAGMENT_SHADER (s\<lparr>program := - 1, dead := False\<rparr>) (fragment_world d s w)
      = (fragment_object d s w, s\<lparr>program := - 1, dead := False\<rparr>, link_world d s w)"
    by (simp add: c l fragment_object_def)
  show "gl_trace (link_world d s w)
      = gl_trace (fragment_world d s w) @ stage_calls d GL_FRAGMENT_SHADER (fragment_shader_source s) (fragment_world d s w)"
    by (simp add: l)
  show "cerr (link_world d s w) = cerr (fragment_world d s w)"
    by (simp add: l)
qed

lemma compile_fragment_object_bad:
  assumes "vertex_status d s w \<noteq> GL_FALSE" "vertex_object d s w \<noteq> - 1"
    and "fragment_status d s w \<noteq> GL_FALSE" "fragment_object d s w = - 1"
  shows "compile d s w = (s\<lparr>program := - 1, dead := True\<rparr>, link_world d s w)"
  using compile_vertex_ok(1) [OF assms(1)] compile_fragment_ok(1) [OF assms(3)] assms(2,4)
  by (simp add: compile_def split_def)

lemma compile_to_link:
  assumes "vertex_status d s w \<noteq> GL_FALSE" "vertex_object d s w \<noteq> - 1"
    and "fragment_status d s w \<noteq> GL_FALSE" "fragment_object d s w \<noteq> - 1"
  shows "compile d s w =
     (let (shader_program, s4, w4) =
            link_shader d (vertex_object d s w) (fragment_object d s w)
              (s\<lparr>program := - 1, dead := False\<rparr>) (link_world d s w)
      in if shader_program = - 1 then (s4\<lparr>dead := True\<rparr>, w4)
         else (s4\<lparr>program := shader_program\<rparr>, w4))"
  using compile_vertex_ok(1) [OF assms(1)] compile_fragment_ok(1) [OF assms(3)] assms(2,4)
  by (simp add: compile_def split_def)

lemma compile_link_fail:
  assumes "vertex_status d s w \<noteq> GL_FALSE" "vertex_object d s w \<noteq> - 1"
    and "fragment_status d s w \<noteq> GL_FALSE" "fragment_object d s w \<noteq> - 1"
    and "program_status d s w = GL_FALSE"
  shows "compile d s w = (s\<lparr>program := - 1, dead := True\<rparr>,
     failed_link_world d (vertex_object d s w) (fragment_object d s w) (link_world d s w))"
  using assms(5)
  by (simp add: compile_to_link [OF assms(1-4)] program_status_def link_shader_fail
      failed_link_world_def)

lemma compile_link_ok:
  assumes "vertex_status d s w \<noteq> GL_FALSE" "vertex_object d s w \<noteq> - 1"
    and "fragment_status d s w \<noteq> GL_FALSE" "fragment_object d s w \<noteq> - 1"
    and "program_status d s w \<noteq> GL_FALSE"
  shows "compile d s w =
     (let r1 = resolve_attributes d (program_object d s w) (attributes s) (attributes s) (released_world d s w);
          r2 = resolve_uniforms d (program_object d s w) (uniforms s) (uniforms s) (snd r1)
      in (s\<lparr>program := program_object d s w, dead := (program_object d s w = - 1),
              attributes := fst r1, uniforms := fst r2\<rparr>, snd r2))"
  using assms(5)
  by (simp add: compile_to_link [OF assms(1-4)] program_status_def link_shader_ok
      released_world_def program_object_def Let_def)

lemma compile_dead_iff: "dead (fst (compile d s w)) \<longleftrightarrow> program (fst (compile d s w)) = - 1"
proof (cases "vertex_status d s w = GL_FALSE")
  case True
  then show ?thesis by (simp add: compile_vertex_fail(1))
next
  case v: False
  show ?thesis
  proof (cases "vertex_object d s w = - 1")
    case True
    with v show ?thesis by (simp add: compile_vertex_object_bad)
  next
    case vo: False
    show ?thesis
    proof (cases "fragment_status d s w = GL_FALSE")
      case True
      with v vo show ?thesis by (simp add: compile_fragment_fail(1))
    next
      case f: False
      show ?thesis
      proof (cases "fragment_object d s w = - 1")
        case True
        with v vo f show ?thesis by (simp add: compile_fragment_object_bad)
      next
        case fo: False
        show ?thesis
        proof (cases "program_status d s w = GL_FALSE")
          case True
          with v vo f fo show ?thesis by (simp add: compile_link_fail)
        next
          case False
          with v vo f fo show ?thesis by (simp add: compile_link_ok Let_def)
        qed
      qed
    qed
  qed
qed

lemma new_calls_append: "gl_trace w' = gl_trace w @ xs \<Longrightarrow> new_calls w w' = xs"
  by (simp add: new_calls_def)

lemma failed_stage_trace:
  "gl_trace (failed_stage_world d t src w) =
     gl_trace w @ stage_calls d t src w @ glGetShaderiv (stage_object d t w) GL_INFO_LOG_LENGTH
       # (if 0 < sint (stage_log_length d t src w)
          then [glGetShaderInfoLog (stage_object d t w) (stage_log_length d t src w)] else [])"
  by (simp add: failed_stage_world_def)

lemma failed_stage_cerr:
  "cerr (failed_stage_world d t src w) =
     cerr w @ (if 0 < sint (stage_log_length d t src w) then compile_report (stage_log d t src w) else [])"
  by (simp add: failed_stage_world_def)

lemma vertex_world_trace: "gl_trace (vertex_world d s w) = gl_trace w @ cleanup_calls s"
  by (simp add: vertex_world_eq)

lemma vertex_world_cerr: "cerr (vertex_world d s w) = cerr w"
  by (simp add: vertex_world_eq)

lemma vertex_failure_run:
  assumes "vertex_status d s w = GL_FALSE"
  shows "fst (compile d s w) = s\<lparr>program := - 1, dead := True\<rparr>"
    and "new_calls w (snd (compile d s w)) =
       cleanup_calls s @ stage_calls d GL_VERTEX_SHADER (vertex_shader_source s) (vertex_world d s w)
         @ glGetShaderiv (vertex_object d s w) GL_INFO_LOG_LENGTH
         # (if 0 < sint (vertex_log_length d s w)
            then [glGetShaderInfoLog (vertex_object d s w) (vertex_log_length d s w)] else [])"
    and "cerr (snd (compile d s w)) =
       cerr w @ (if 0 < sint (vertex_log_length d s w) then compile_report (vertex_log d s w) else [])"
proof -
  note c = compile_vertex_fail [OF assms]
  show "fst (compile d s w) = s\<lparr>program := - 1, dead := True\<rparr>"
    by (simp add: c(1))
  have "gl_trace (snd (compile d s w)) = gl_trace w @
       (cleanup_calls s @ stage_calls d GL_VERTEX_SHADER (vertex_shader_source s) (vertex_world d s w)
         @ glGetShaderiv (vertex_object d s w) GL_INFO_LOG_LENGTH
         # (if 0 < sint (vertex_log_length d s w)
            then [glGetShaderInfoLog (vertex_object d s w) (vertex_log_length d s w)] else []))"
    by (simp add: c failed_stage_trace vertex_world_trace vertex_object_def vertex_log_length_def)
  then show "new_calls w (snd (compile d s w)) =
       cleanup_calls s @ stage_calls d GL_VERTEX_SHADER (vertex_shader_source s) (vertex_world d s w)
         @ glGetShaderiv (vertex_object d s w) GL_INFO_LOG_LENGTH
         # (if 0 < sint (vertex_log_length d s w)
            then [glGetShaderInfoLog (vertex_object d s w) (vertex_log_length d s w)] else [])"
    by (rule new_calls_append)
  show "cerr (snd (compile d s w)) =
       cerr w @ (if 0 < sint (vertex_log_length d s w) then compile_report (vertex_log d s w) else [])"
    by (simp add: c failed_stage_cerr vertex_world_cerr vertex_log_length_def vertex_log_def)
qed

lemma fragment_world_run:
  assumes "vertex_status d s w \<noteq> GL_FALSE"
  shows "gl_trace (fragment_world d s w) =
      gl_trace w @ cleanup_calls s @ stage_calls d GL_VERTEX_SHADER (vertex_shader_source s) (vertex_world d s w)"
  by (simp add: compile_vertex_ok(2) [OF assms] vertex_world_trace)

lemma fragment_failure_run:
  assumes "vertex_status d s w \<noteq> GL_FALSE" "vertex_object d s w \<noteq> - 1"
    and "fragment_status d s w = GL_FALSE"
  shows "fst (compile d s w) = s\<lparr>program := - 1, dead := True\<rparr>"
    and "new_calls w (snd (compile d s w)) =
       cleanup_calls s @ stage_calls d GL_VERTEX_SHADER (vertex_shader_source s) (vertex_world d s w)
         @ stage_calls d GL_FRAGMENT_SHADER (fragment_shader_source s) (fragment_world d s w)
         @ glGetShaderiv (fragment_object d s w) GL_INFO_LOG_LENGTH
         # (if 0 < sint (fragment_log_length d s w)
            then [glGetShaderInfoLog (fragment_object d s w) (fragment_log_length d s w)] else [])"
    and "cerr (snd (compile d s w)) =
       cerr w @ (if 0 < sint (fragment_log_length d s w) then compile_report (fragment_log d s w) else [])"
proof -
  note c = compile_fragment_fail [OF assms]
  show "fst (compile d s w) = s\<lparr>program := - 1, dead := True\<rparr>"
    by (simp add: c(1))
  have "gl_trace (snd (compile d s w)) = gl_trace w @
       (cleanup_calls s @ stage_calls d GL_VERTEX_SHADER (vertex_shader_source s) (vertex_world d s w)
         @ stage_calls d GL_FRAGMENT_SHADER (fragment_shader_source s) (fragment_world d s w)
         @ glGetShaderiv (fragment_object d s w) GL_INFO_LOG_LENGTH
         # (if 0 < sint (fragment_log_length d s w)
            then [glGetShaderInfoLog (fragment_object d s w) (fragment_log_length d s w)] else []))"
    by (simp add: c failed_stage_trace fragment_world_run [OF assms(1)] fragment_object_def
        fragment_log_length_def)
  then show "new_calls w (snd (compile d s w)) =
       cleanup_calls s @ stage_calls d GL_VERTEX_SHADER (vertex_shader_source s) (vertex_world d s w)
         @ stage_calls d GL_FRAGMENT_SHADER (fragment_shader_source s) (fragment_world d s w)
         @ glGetShaderiv (fragment_object d s w) GL_INFO_LOG_LENGTH
         # (if 0 < sint (fragment_log_length d s w)
            then [glGetShaderInfoLog (fragment_object d s w) (fragment_log_length d s w)] else [])"
    by (rule new_calls_append)
  show "cerr (snd (compile d s w)) =
       cerr w @ (if 0 < sint (fragment_log_length d s w) then compile_report (fragment_log d s w) else [])"
    by (simp add: c failed_stage_cerr compile_vertex_ok(3) [OF assms(1)] fragment_log_length_def
        fragment_log_def)
qed

lemma vertex_object_bad_run:
  assumes "vertex_status d s w \<noteq> GL_FALSE" "vertex_object d s w = - 1"
  shows "fst (compile d s w) = s\<lparr>program := - 1, dead := True\<rparr>"
    and "new_calls w (snd (compile d s w)) =
       cleanup_calls s @ stage_calls d GL_VERTEX_SHADER (vertex_shader_source s) (vertex_world d s w)"
    and "cerr (snd (compile d s w)) = cerr w"
proof -
  note c = compile_vertex_object_bad [OF assms]
  show "fst (compile d s w) = s\<lparr>program := - 1, dead := True\<rparr>"
    by (simp add: c)
  have "gl_trace (snd (compile d s w)) = gl_trace w @
      (cleanup_calls s @ stage_calls d GL_VERTEX_SHADER (vertex_shader_source s) (vertex_world d s w))"
    by (simp add: c fragment_world_run [OF assms(1)])
  then show "new_calls w (snd (compile d s w)) =
       cleanup_calls s @ stage_calls d GL_VERTEX_SHADER (vertex_shader_source s) (vertex_world d s w)"
    by (rule new_calls_append)
  show "cerr (snd (compile d s w)) = cerr w"
    by (simp add: c compile_vertex_ok(3) [OF assms(1)])
qed

lemma link_world_run:
  assumes "vertex_status d s w \<noteq> GL_FALSE" "fragment_status d s w \<noteq> GL_FALSE"
  shows "gl_trace (link_world d s w) =
      gl_trace w @ cleanup_calls s @ stage_calls d GL_VERTEX_SHADER (vertex_shader_source s) (vertex_world d s w)
        @ stage_calls d GL_FRAGMENT_SHADER (fragment_shader_source s) (fragment_world d s w)"
    and "cerr (link_world d s w) = cerr w"
  by (simp_all add: compile_fragment_ok(2,3) [OF assms(2)] fragment_world_run [OF assms(1)]
      compile_vertex_ok(3) [OF assms(1)])

lemma link_failure_run:
  assumes "vertex_status d s w \<noteq> GL_FALSE" "vertex_object d s w \<noteq> - 1"
    and "fragment_status d s w \<noteq> GL_FALSE" "fragment_object d s w \<noteq> - 1"
    and "program_status d s w = GL_FALSE"
  shows "fst (compile d s w) = s\<lparr>program := - 1, dead := True\<rparr>"
    and "new_calls w (snd (compile d s w)) =
       build_calls d s w @ glGetProgramiv (program_object d s w) GL_INFO_LOG_LENGTH
         # (if 0 < sint (program_log_length d s w)
            then [glGetProgramInfoLog (program_object d s w) (program_log_length d s w)] else [])"
    and "cerr (snd (compile d s w)) =
       cerr w @ (if 0 < sint (program_log_length d s w) then link_report (program_log d s w) else [])"
proof -
  note c = compile_link_fail [OF assms]
  note l = link_world_run [OF assms(1,3)]
  show "fst (compile d s w) = s\<lparr>program := - 1, dead := True\<rparr>"
    by (simp add: c)
  have "gl_trace (snd (compile d s w)) = gl_trace w @
       (build_calls d s w @ glGetProgramiv (program_object d s w) GL_INFO_LOG_LENGTH
         # (if 0 < sint (program_log_length d s w)
            then [glGetProgramInfoLog (program_object d s w) (program_log_length d s w)] else []))"
    by (simp add: c failed_link_world_def l build_calls_def program_object_def program_log_length_def)
  then show "new_calls w (snd (compile d s w)) =
       build_calls d s w @ glGetProgramiv (program_object d s w) GL_INFO_LOG_LENGTH
         # (if 0 < sint (program_log_length d s w)
            then [glGetProgramInfoLog (program_object d s w) (program_log_length d s w)] else [])"
    by (rule new_calls_append)
  show "cerr (snd (compile d s w)) =
       cerr w @ (if 0 < sint (program_log_length d s w) then link_report (program_log d s w) else [])"
    by (simp add: c failed_link_world_def l program_log_length_def program_log_def)
qed

lemma link_success_run:
  assumes "vertex_status d s w \<noteq> GL_FALSE" "vertex_object d s w \<noteq> - 1"
    and "fragment_status d s w \<noteq> GL_FALSE" "fragment_object d s w \<noteq> - 1"
    and "program_status d s w \<noteq> GL_FALSE"
  shows "program (fst (compile d s w)) = program_object d s w"
    and "dead (fst (compile d s w)) \<longleftrightarrow> program_object d s w = - 1"
    and "attributes (fst (compile d s w)) =
       fst (resolve_attributes d (program_object d s w) (attributes s) (attributes s) (released_world d s w))"
    and "uniforms (fst (compile d s w)) =
       fst (resolve_uniforms d (program_object d s w) (uniforms s) (uniforms s)
         (snd (resolve_attributes d (program_object d s w) (attributes s) (attributes s) (released_world d s w))))"
    and "snd (compile d s w) =
       snd (resolve_uniforms d (program_object d s w) (uniforms s) (uniforms s)
         (snd (resolve_attributes d (program_object d s w) (attributes s) (attributes s) (released_world d s w))))"
    and "gl_trace (released_world d s w) = gl_trace w @ build_calls d s w
       @ release_calls (program_object d s w) (vertex_object d s w) (fragment_object d s w)"
  by (simp_all add: compile_link_ok [OF assms] Let_def released_world_def
      link_world_run [OF assms(1,3)] build_calls_def)

lemma link_success_calls:
  assumes "vertex_status d s w \<noteq> GL_FALSE" "vertex_object d s w \<noteq> - 1"
    and "fragment_status d s w \<noteq> GL_FALSE" "fragment_object d s w \<noteq> - 1"
    and "program_status d s w \<noteq> GL_FALSE"
  shows "new_calls w (snd (compile d s w)) =
       build_calls d s w
       @ release_calls (program_object d s w) (vertex_object d s w) (fragment_object d s w)
       @ map (\<lambda>a. glGetAttribLocation (program_object d s w) (fst a)) (attributes s)
       @ map (\<lambda>u. glGetUniformLocation (program_object d s w) (fst u)) (uniforms s)"
  by (rule new_calls_append)
    (simp add: link_success_run(5,6) [OF assms] resolve_uniforms_trace resolve_attributes_trace)

lemma resolve_uniforms_value:
  "name \<in> fst ` set xs \<Longrightarrow>
   \<exists>v. map_of (fst (resolve_uniforms d p xs m w)) name = Some v
     \<and> answered d (gl_trace (snd (resolve_uniforms d p xs m w))) (glGetUniformLocation p name) v"
proof (induction xs arbitrary: m w)
  case Nil
  then show ?case by simp
next
  case (Cons a xs)
  define w' where "w' = w\<lparr>gl_trace := gl_trace w @ [glGetUniformLocation p (fst a)]\<rparr>"
  define m' where "m' = map_assign (fst a) (gl_ret d (gl_trace w) (glGetUniformLocation p (fst a))) m"
  have step: "resolve_uniforms d p (a # xs) m w = resolve_uniforms d p xs m' w'"
    by (simp add: gl_def w'_def m'_def)
  show ?case
  proof (cases "name \<in> fst ` set xs")
    case True
    from Cons.IH [OF True, of m' w'] show ?thesis by (simp only: step)
  next
    case False
    with Cons.prems have n: "name = fst a" by auto
    have "map_of (fst (resolve_uniforms d p xs m' w')) name = map_of m' name"
      using False by (rule resolve_uniforms_other)
    then have v: "map_of (fst (resolve_uniforms d p xs m' w')) name
        = Some (gl_ret d (gl_trace w) (glGetUniformLocation p name))"
      by (simp add: m'_def n map_of_map_assign)
    have "gl_trace (snd (resolve_uniforms d p xs m' w'))
        = gl_trace w @ glGetUniformLocation p name # map (\<lambda>a. glGetUniformLocation p (fst a)) xs"
      by (simp add: resolve_uniforms_trace w'_def n)
    then have "answered d (gl_trace (snd (resolve_uniforms d p xs m' w'))) (glGetUniformLocation p name)
        (gl_ret d (gl_trace w) (glGetUniformLocation p name))"
      unfolding answered_def by blast
    with v show ?thesis by (simp only: step) blast
  qed
qed

lemma answered_append: "answered d tr c v \<Longrightarrow> answered d (tr @ ys) c v"
  unfolding answered_def by fastforce

lemma compile_success_iff:
  "program (fst (compile d s w)) \<noteq> - 1 \<longleftrightarrow> gl_accepts d s w \<and> names_valid d s w"
proof (cases "vertex_status d s w = GL_FALSE")
  case True
  then show ?thesis by (simp add: compile_vertex_fail(1) gl_accepts_def)
next
  case v: False
  show ?thesis
  proof (cases "vertex_object d s w = - 1")
    case True
    with v show ?thesis by (simp add: compile_vertex_object_bad names_valid_def)
  next
    case vo: False
    show ?thesis
    proof (cases "fragment_status d s w = GL_FALSE")
      case True
      with v vo show ?thesis by (simp add: compile_fragment_fail(1) gl_accepts_def)
    next
      case f: False
      show ?thesis
      proof (cases "fragment_object d s w = - 1")
        case True
        with v vo f show ?thesis by (simp add: compile_fragment_object_bad names_valid_def)
      next
        case fo: False
        show ?thesis
        proof (cases "program_status d s w = GL_FALSE")
          case True
          with v vo f fo show ?thesis by (simp add: compile_link_fail gl_accepts_def)
        next
          case False
          with v vo f fo show ?thesis
            by (simp add: link_success_run(1) gl_accepts_def names_valid_def)
        qed
      qed
    qed
  qed
qed

lemma compile_failure_keeps_tables:
  assumes "vertex_status d s w = GL_FALSE \<or> fragment_status d s w = GL_FALSE
      \<or> program_status d s w = GL_FALSE"
  shows "fst (compile d s w) = s\<lparr>program := - 1, dead := True\<rparr>"
proof (cases "vertex_status d s w = GL_FALSE")
  case True
  then show ?thesis by (simp add: compile_vertex_fail(1))
next
  case v: False
  show ?thesis
  proof (cases "vertex_object d s w = - 1")
    case True
    with v show ?thesis by (simp add: compile_vertex_object_bad)
  next
    case vo: False
    show ?thesis
    proof (cases "fragment_status d s w = GL_FALSE")
      case True
      with v vo show ?thesis by (simp add: compile_fragment_fail(1))
    next
      case f: False
      show ?thesis
      proof (cases "fragment_object d s w = - 1")
        case True
        with v vo f show ?thesis by (simp add: compile_fragment_object_bad)
      next
        case fo: False
        from assms v f have "program_status d s w = GL_FALSE" by simp
        with v vo f fo show ?thesis by (simp add: compile_link_fail)
      qed
    qed
  qed
qed

lemma compile_link_failure_no_delete:
  assumes "vertex_status d s w \<noteq> GL_FALSE" "vertex_object d s w \<noteq> - 1"
    and "fragment_status d s w \<noteq> GL_FALSE" "fragment_object d s w \<noteq> - 1"
    and "program_status d s w = GL_FALSE"
  shows "glDeleteShader x \<notin> set (new_calls w (snd (compile d s w)))"
    and "glDeleteProgram (program_object d s w) \<notin> set (drop (length (cleanup_calls s)) (new_calls w (snd (compile d s w))))"
  by (simp_all add: link_failure_run(2) [OF assms] build_calls_def cleanup_calls_def stage_calls_def
      link_calls_def)

section \<open>Properties of the counting loops and of the generators\<close>

declare for_lt.simps [simp del]

lemma u32_less: "unat (n :: 32 word) < 2 ^ 32"
  using unsigned_less [of n] by simp

lemma u32_minus_one: "unat (- 1 :: 32 word) = 4294967295"
  by (simp add: unsigned_minus_1_eq_mask mask_eq_exp_minus_1)

lemma u32_not_max: "(n :: 32 word) \<noteq> - 1 \<Longrightarrow> unat n < 4294967295"
proof -
  assume "n \<noteq> - 1"
  then have "unat n \<noteq> unat (- 1 :: 32 word)" by (simp add: word_unat_eq_iff)
  with u32_less [of n] show ?thesis by (simp add: u32_minus_one)
qed

lemma u32_succ: "unat (i :: 32 word) < 4294967295 \<Longrightarrow> unat (i + 1) = Suc (unat i)"
  by (simp add: unat_word_ariths)

lemma u32_add_le: "unat (a + b :: 32 word) \<le> unat a + unat b"
  by (simp add: unat_word_ariths)

lemma u32_mult_le: "unat (a * b :: 32 word) \<le> unat a * unat b"
  by (simp add: unat_word_ariths)

lemma push_all_fits:
  "length xs + length ys \<le> capacity \<Longrightarrow> push_all capacity xs ys = Inr (xs @ ys)"
  by (induction ys arbitrary: xs) (auto simp: push_back_def)

lemma push_all_Inr: "push_all capacity xs ys = Inr r \<Longrightarrow> r = xs @ ys"
  by (induction ys arbitrary: xs) (fastforce simp: push_back_def split: if_splits)+

lemma for_le_rule:
  assumes n: "n \<noteq> - 1"
    and step: "\<And>i acc. i \<le> n \<Longrightarrow> P (unat i) acc \<Longrightarrow>
      \<exists>acc'. body i acc = Some (Inr acc') \<and> P (Suc (unat i)) acc'"
  shows "P (unat i) acc \<Longrightarrow> unat i \<le> Suc (unat n) \<Longrightarrow>
    \<exists>acc'. for_le i n body acc = Some (Inr acc') \<and> P (Suc (unat n)) acc'"
proof (induction "Suc (unat n) - unat i" arbitrary: i acc)
  case 0
  then have e: "unat i = Suc (unat n)" by simp
  then have "\<not> i \<le> n" by (simp add: word_le_nat_alt)
  then have "for_le i n body acc = Some (Inr acc)"
    by (subst for_le.simps) simp
  with "0.prems"(1) e show ?case by simp
next
  case (Suc k)
  then have le: "unat i \<le> unat n" by simp
  then have i: "i \<le> n" by (simp add: word_le_nat_alt)
  from step [OF i Suc.prems(1)] obtain acc' where
    b: "body i acc = Some (Inr acc')" and p: "P (Suc (unat i)) acc'" by blast
  from le u32_not_max [OF n] have s: "unat (i + 1) = Suc (unat i)"
    by (simp add: u32_succ)
  have "\<exists>acc''. for_le (i + 1) n body acc' = Some (Inr acc'') \<and> P (Suc (unat n)) acc''"
  proof (rule Suc.hyps(1))
    show "k = Suc (unat n) - unat (i + 1)" using Suc.hyps(2) s by simp
    show "P (unat (i + 1)) acc'" using p s by simp
    show "unat (i + 1) \<le> Suc (unat n)" using le s by simp
  qed
  moreover have "for_le i n body acc = for_le (i + 1) n body acc'"
    using i b by (subst for_le.simps) simp
  ultimately show ?case by simp
qed

lemma for_le_max_throws:
  fixes acc :: 'a
  assumes r: "for_le i n body acc = Some y"
  shows "n = - 1 \<longrightarrow> isl y"
proof (rule for_le.raw_induct [where P = "\<lambda>i n body acc y. n = - 1 \<longrightarrow> isl y", OF _ r])
  fix f :: "32 word \<Rightarrow> 32 word \<Rightarrow> (32 word \<Rightarrow> 'a \<Rightarrow> (exn + 'a) option) \<Rightarrow> 'a \<Rightarrow> (exn + 'a) option"
    and i n :: "32 word" and body :: "32 word \<Rightarrow> 'a \<Rightarrow> (exn + 'a) option" and acc :: 'a
    and y :: "exn + 'a"
  assume ih: "\<And>i n body acc y. f i n body acc = Some y \<Longrightarrow> n = - 1 \<longrightarrow> isl y"
    and u: "(if i \<le> n
      then Option.bind (body i acc)
             (\<lambda>r. case r of Inl e \<Rightarrow> Some (Inl e) | Inr acc' \<Rightarrow> f (i + 1) n body acc')
      else Some (Inr acc)) = Some y"
  show "n = - 1 \<longrightarrow> isl y"
  proof
    assume m: "n = - 1"
    with u obtain r where b: "body i acc = Some r"
      and c: "(case r of Inl e \<Rightarrow> Some (Inl e) | Inr acc' \<Rightarrow> f (i + 1) n body acc') = Some y"
      by (auto simp: bind_eq_Some_conv)
    show "isl y"
    proof (cases r)
      case (Inl e)
      with c show ?thesis by auto
    next
      case (Inr acc')
      with c have "f (i + 1) n body acc' = Some y" by simp
      from ih [OF this] m show ?thesis by simp
    qed
  qed
qed

lemma for_le_sim:
  fixes acc :: 'a
  assumes sim: "\<And>i acc r. body i acc = Some (Inr r) \<Longrightarrow> body' i acc = Some (Inr r)"
    and r: "for_le i n body acc = Some y"
  shows "\<forall>r. y = Inr r \<longrightarrow> for_le i n body' acc = Some (Inr r)"
proof -
  have "body = body \<longrightarrow> (\<forall>r. y = Inr r \<longrightarrow> for_le i n body' acc = Some (Inr r))"
  proof (rule for_le.raw_induct [where P = "\<lambda>i n b acc y. b = body \<longrightarrow>
      (\<forall>r. y = Inr r \<longrightarrow> for_le i n body' acc = Some (Inr r))", OF _ r])
    fix f :: "32 word \<Rightarrow> 32 word \<Rightarrow> (32 word \<Rightarrow> 'a \<Rightarrow> (exn + 'a) option) \<Rightarrow> 'a \<Rightarrow> (exn + 'a) option"
      and i n :: "32 word" and b :: "32 word \<Rightarrow> 'a \<Rightarrow> (exn + 'a) option" and acc :: 'a
      and y :: "exn + 'a"
    assume ih: "\<And>i n b acc y. f i n b acc = Some y \<Longrightarrow> b = body \<longrightarrow>
        (\<forall>r. y = Inr r \<longrightarrow> for_le i n body' acc = Some (Inr r))"
      and u: "(if i \<le> n
        then Option.bind (b i acc)
               (\<lambda>r. case r of Inl e \<Rightarrow> Some (Inl e) | Inr acc' \<Rightarrow> f (i + 1) n b acc')
        else Some (Inr acc)) = Some y"
    show "b = body \<longrightarrow> (\<forall>r. y = Inr r \<longrightarrow> for_le i n body' acc = Some (Inr r))"
    proof (intro impI allI)
      fix r assume bb: "b = body" and y: "y = Inr r"
      show "for_le i n body' acc = Some (Inr r)"
      proof (cases "i \<le> n")
        case False
        with u y have "acc = r" by simp
        with False show ?thesis by (subst for_le.simps) simp
      next
        case True
        with u obtain q where q: "b i acc = Some q"
          and c: "(case q of Inl e \<Rightarrow> Some (Inl e) | Inr acc' \<Rightarrow> f (i + 1) n b acc') = Some y"
          by (auto simp: bind_eq_Some_conv)
        from c y obtain acc' where a: "q = Inr acc'" and g: "f (i + 1) n b acc' = Some y"
          by (cases q) auto
        from ih [OF g] bb y have "for_le (i + 1) n body' acc' = Some (Inr r)" by simp
        moreover from q a bb have "body' i acc = Some (Inr acc')" by (simp add: sim)
        ultimately show ?thesis using True by (subst for_le.simps) simp
      qed
    qed
  qed
  then show ?thesis by simp
qed

lemma for_lt_partial:
  assumes step: "\<And>i acc acc'. i < n \<Longrightarrow> P (unat i) acc \<Longrightarrow> body i acc = Inr acc'
      \<Longrightarrow> P (Suc (unat i)) acc'"
  shows "P (unat i) acc \<Longrightarrow> i \<le> n \<Longrightarrow> for_lt i n body acc = Inr r \<Longrightarrow> P (unat n) r"
  using step
proof (induction i n body acc rule: for_lt.induct)
  case (1 i n body acc)
  show ?case
  proof (cases "i < n")
    case True
    then have lt: "unat i < unat n" by (simp add: word_less_nat_alt)
    with u32_less [of n] have s: "unat (i + 1) = Suc (unat i)"
      by (simp add: u32_succ)
    from "1.prems"(3) True obtain acc' where b: "body i acc = Inr acc'"
      and f: "for_lt (i + 1) n body acc' = Inr r"
      by (subst (asm) for_lt.simps) (auto split: sum.splits)
    show ?thesis
    proof (rule "1.IH" [OF True b])
      show "P (unat (i + 1)) acc'"
        using "1.prems"(4) [OF True "1.prems"(1) b] s by simp
      show "i + 1 \<le> n" using lt s by (simp add: word_le_nat_alt)
      show "for_lt (i + 1) n body acc' = Inr r" by (rule f)
      show "\<And>i acc acc'. i < n \<Longrightarrow> P (unat i) acc \<Longrightarrow> body i acc = Inr acc'
          \<Longrightarrow> P (Suc (unat i)) acc'"
        by (rule "1.prems"(4))
    qed
  next
    case False
    with "1.prems"(2) have e: "i = n" by simp
    from "1.prems"(3) False have "acc = r" by (subst (asm) for_lt.simps) simp
    with "1.prems"(1) e show ?thesis by simp
  qed
qed

lemma for_lt_total:
  assumes step: "\<And>i acc. i < n \<Longrightarrow> P (unat i) acc
      \<Longrightarrow> \<exists>acc'. body i acc = Inr acc' \<and> P (Suc (unat i)) acc'"
  shows "P (unat i) acc \<Longrightarrow> i \<le> n \<Longrightarrow> \<exists>r. for_lt i n body acc = Inr r \<and> P (unat n) r"
  using step
proof (induction i n body acc rule: for_lt.induct)
  case (1 i n body acc)
  show ?case
  proof (cases "i < n")
    case True
    then have lt: "unat i < unat n" by (simp add: word_less_nat_alt)
    with u32_less [of n] have s: "unat (i + 1) = Suc (unat i)"
      by (simp add: u32_succ)
    from "1.prems"(3) [OF True "1.prems"(1)] obtain acc' where b: "body i acc = Inr acc'"
      and p: "P (Suc (unat i)) acc'" by blast
    have "\<exists>r. for_lt (i + 1) n body acc' = Inr r \<and> P (unat n) r"
    proof (rule "1.IH" [OF True b])
      show "P (unat (i + 1)) acc'" using p s by simp
      show "i + 1 \<le> n" using lt s by (simp add: word_le_nat_alt)
      show "\<And>i acc. i < n \<Longrightarrow> P (unat i) acc
          \<Longrightarrow> \<exists>acc'. body i acc = Inr acc' \<and> P (Suc (unat i)) acc'"
        by (rule "1.prems"(3))
    qed
    with True b show ?thesis by (subst for_lt.simps) simp
  next
    case False
    with "1.prems"(2) have "i = n" by simp
    with "1.prems"(1) False show ?thesis by (subst for_lt.simps) simp
  qed
qed

lemma grid_vertices:
  fixes mk :: "32 word \<Rightarrow> 32 word \<Rightarrow> 'v"
  assumes m: "m \<noteq> - 1" and n: "n \<noteq> - 1" and cap: "Suc (unat m) * Suc (unat n) \<le> capacity"
  shows "\<exists>vs. for_le 0 n (\<lambda>i vs. for_le 0 m (\<lambda>j vs. Some (push_back capacity vs (mk i j))) vs) []
      = Some (Inr vs) \<and> length vs = Suc (unat m) * Suc (unat n)"
proof -
  have inner: "\<exists>a'. for_le 0 m (\<lambda>j vs. Some (push_back capacity vs (mk i j))) a = Some (Inr a')
      \<and> length a' = length a + Suc (unat m)"
    if room: "length a + Suc (unat m) \<le> capacity" for i and a :: "'v list"
  proof (rule for_le_rule [where P = "\<lambda>k x. length x = length a + k" and i = 0, OF m])
    fix j and x :: "'v list"
    assume "j \<le> m" and p: "length x = length a + unat j"
    then have "unat j \<le> unat m" by (simp add: word_le_nat_alt)
    with p room have "length x < capacity" by simp
    with p show "\<exists>acc'. Some (push_back capacity x (mk i j)) = Some (Inr acc')
        \<and> length acc' = length a + Suc (unat j)"
      by (simp add: push_back_def)
  qed simp_all
  have "\<exists>vs. for_le 0 n (\<lambda>i vs. for_le 0 m (\<lambda>j vs. Some (push_back capacity vs (mk i j))) vs) []
      = Some (Inr vs) \<and> length vs = Suc (unat n) * Suc (unat m)"
  proof (rule for_le_rule [where P = "\<lambda>k x. length x = k * Suc (unat m)" and i = 0, OF n])
    fix i and x :: "'v list"
    assume i: "i \<le> n" and p: "length x = unat i * Suc (unat m)"
    from i have "Suc (unat i) \<le> Suc (unat n)" by (simp add: word_le_nat_alt)
    then have "Suc (unat i) * Suc (unat m) \<le> Suc (unat n) * Suc (unat m)"
      by (rule mult_le_mono1)
    with cap p have "length x + Suc (unat m) \<le> capacity" by (simp add: mult.commute)
    from inner [OF this, of i] p
    show "\<exists>acc'. for_le 0 m (\<lambda>j vs. Some (push_back capacity vs (mk i j))) x = Some (Inr acc')
        \<and> length acc' = Suc (unat i) * Suc (unat m)"
      by auto
  qed simp_all
  then show ?thesis by (simp add: mult.commute)
qed

lemma grid_vertices_free:
  fixes mk :: "32 word \<Rightarrow> 32 word \<Rightarrow> 'v"
  assumes "for_le 0 n (\<lambda>i vs. for_le 0 m (\<lambda>j vs. Some (push_back capacity vs (mk i j))) vs) []
      = Some (Inr vs)"
  shows "for_le 0 n (\<lambda>i vs. for_le 0 m (\<lambda>j vs. Some (Inr (vs @ [mk i j]))) vs) [] = Some (Inr vs)"
proof -
  have push: "Some (Inr (x @ [mk i j])) = Some (Inr r)"
    if "Some (push_back capacity x (mk i j)) = Some (Inr r)" for i j and x r :: "'v list"
    using that by (auto simp: push_back_def split: if_splits)
  have inner: "for_le 0 m (\<lambda>j vs. Some (Inr (vs @ [mk i j]))) a = Some (Inr r)"
    if l: "for_le 0 m (\<lambda>j vs. Some (push_back capacity vs (mk i j))) a = Some (Inr r)"
    for i and a r :: "'v list"
    using for_le_sim [where body = "\<lambda>j vs. Some (push_back capacity vs (mk i j))"
        and body' = "\<lambda>j vs. Some (Inr (vs @ [mk i j]))", OF push l]
    by simp
  from for_le_sim [where body = "\<lambda>i vs. for_le 0 m (\<lambda>j vs. Some (push_back capacity vs (mk i j))) vs"
      and body' = "\<lambda>i vs. for_le 0 m (\<lambda>j vs. Some (Inr (vs @ [mk i j]))) vs", OF inner assms]
  show ?thesis by simp
qed

lemma for_le_first:
  "for_le 0 n body acc =
     Option.bind (body 0 acc)
       (\<lambda>r. case r of Inl e \<Rightarrow> Some (Inl e) | Inr acc' \<Rightarrow> for_le (0 + 1) n body acc')"
  by (subst for_le.simps) simp

lemma grid_vertices_max:
  fixes mk :: "32 word \<Rightarrow> 32 word \<Rightarrow> 'v"
  assumes "m = - 1 \<or> n = - 1"
  shows "for_le 0 n (\<lambda>i vs. for_le 0 m (\<lambda>j vs. Some (push_back capacity vs (mk i j))) vs) []
      \<noteq> Some (Inr vs)"
proof (cases "n = - 1")
  case True
  show ?thesis
  proof
    assume "for_le 0 n (\<lambda>i vs. for_le 0 m (\<lambda>j vs. Some (push_back capacity vs (mk i j))) vs) []
      = Some (Inr vs)"
    from for_le_max_throws [OF this] True show False by simp
  qed
next
  case False
  with assms have m: "m = - 1" by simp
  define body where "body = (\<lambda>i (vs :: 'v list).
    for_le 0 m (\<lambda>j vs. Some (push_back capacity vs (mk i j))) vs)"
  have "for_le 0 n body [] \<noteq> Some (Inr vs)"
  proof
    assume "for_le 0 n body [] = Some (Inr vs)"
    then obtain r where r: "body 0 [] = Some r"
      and c: "(case r of Inl e \<Rightarrow> Some (Inl e) | Inr acc' \<Rightarrow> for_le (0 + 1) n body acc')
        = Some (Inr vs)"
      by (auto simp: for_le_first [of n body] bind_eq_Some_conv)
    from r have "for_le 0 m (\<lambda>j vs. Some (push_back capacity vs (mk 0 j))) [] = Some r"
      by (simp add: body_def)
    from for_le_max_throws [OF this] m have "isl r" by simp
    with c show False by (cases r) auto
  qed
  then show ?thesis by (simp add: body_def)
qed

lemma grid_indices_length:
  fixes q :: "32 word \<Rightarrow> 32 word \<Rightarrow> 32 word list"
  assumes len: "\<And>i j. i < n \<Longrightarrow> length (q i j) = c i"
    and t0: "t 0 = (0 :: nat)"
    and ts: "\<And>i. i < n \<Longrightarrow> t (Suc (unat i)) = t (unat i) + c i"
    and r: "for_lt 0 n (\<lambda>i is. for_lt 0 m (\<lambda>j is. push_all capacity is (q i j)) is) [] = Inr r"
  shows "length r = unat m * t (unat n)"
proof (rule for_lt_partial [where P = "\<lambda>k x. length x = unat m * t k" and i = 0, OF _ _ _ r])
  fix i and a a' :: "32 word list"
  assume i: "i < n" and p: "length a = unat m * t (unat i)"
    and b: "for_lt 0 m (\<lambda>j is. push_all capacity is (q i j)) a = Inr a'"
  have "length a' = length a + unat m * c i"
  proof (rule for_lt_partial [where P = "\<lambda>k x. length x = length a + k * c i" and i = 0, OF _ _ _ b])
    fix j and x x' :: "32 word list"
    assume "length x = length a + unat j * c i" and "push_all capacity x (q i j) = Inr x'"
    then show "length x' = length a + Suc (unat j) * c i"
      using push_all_Inr [of capacity x "q i j" x'] len [OF i] by simp
  qed simp_all
  with p show "length a' = unat m * t (Suc (unat i))"
    by (simp add: ts [OF i] distrib_left)
qed (simp_all add: t0)

lemma grid_indices_returns:
  fixes q :: "32 word \<Rightarrow> 32 word \<Rightarrow> 32 word list"
  assumes len: "\<And>i j. i < n \<Longrightarrow> length (q i j) = c i"
    and t0: "t 0 = (0 :: nat)"
    and ts: "\<And>i. i < n \<Longrightarrow> t (Suc (unat i)) = t (unat i) + c i"
    and cap: "unat m * t (unat n) \<le> capacity"
    and mono: "\<And>i. i < n \<Longrightarrow> t (Suc (unat i)) \<le> t (unat n)"
  shows "\<exists>r. for_lt 0 n (\<lambda>i is. for_lt 0 m (\<lambda>j is. push_all capacity is (q i j)) is) [] = Inr r
    \<and> length r = unat m * t (unat n)"
proof (rule for_lt_total [where P = "\<lambda>k x. length x = unat m * t k" and i = 0])
  fix i and a :: "32 word list"
  assume i: "i < n" and p: "length a = unat m * t (unat i)"
  have "unat m * t (Suc (unat i)) \<le> unat m * t (unat n)"
    using mono [OF i] by (rule mult_le_mono2)
  with cap p have room: "length a + unat m * c i \<le> capacity"
    by (simp add: ts [OF i] distrib_left)
  have "\<exists>a'. for_lt 0 m (\<lambda>j is. push_all capacity is (q i j)) a = Inr a'
      \<and> length a' = length a + unat m * c i"
  proof (rule for_lt_total [where P = "\<lambda>k x. length x = length a + k * c i" and i = 0])
    fix j and x :: "32 word list"
    assume j: "j < m" and px: "length x = length a + unat j * c i"
    from j have "Suc (unat j) \<le> unat m" by (simp add: word_less_nat_alt)
    then have "Suc (unat j) * c i \<le> unat m * c i" by (rule mult_le_mono1)
    with room px have "length x + length (q i j) \<le> capacity" by (simp add: len [OF i])
    then have "push_all capacity x (q i j) = Inr (x @ q i j)" by (rule push_all_fits)
    with px show "\<exists>acc'. push_all capacity x (q i j) = Inr acc'
        \<and> length acc' = length a + Suc (unat j) * c i"
      by (simp add: len [OF i])
  qed simp_all
  with p show "\<exists>acc'. for_lt 0 m (\<lambda>j is. push_all capacity is (q i j)) a = Inr acc'
      \<and> length acc' = unat m * t (Suc (unat i))"
    by (simp add: ts [OF i] distrib_left)
qed (simp_all add: t0)

lemma grid_count: "a < n \<Longrightarrow> b < m \<Longrightarrow> a * Suc m + b + Suc m + 1 < Suc m * Suc (n :: nat)"
proof -
  assume a: "a < n" and b: "b < m"
  from a have "Suc a * Suc m \<le> n * Suc m" by (intro mult_le_mono1) simp
  then have "a * Suc m + Suc m \<le> n * Suc m" by simp
  with b have "a * Suc m + b + Suc m + 1 < n * Suc m + Suc m" by simp
  then show ?thesis by (simp add: mult.commute)
qed

lemma index_bounds:
  fixes i j m n :: "32 word"
  assumes i: "i < n" and j: "j < m"
  shows "unat (i * (m + 1) + j) < Suc (unat m) * Suc (unat n)"
    and "unat (i * (m + 1) + j + 1) < Suc (unat m) * Suc (unat n)"
    and "unat (i * (m + 1) + j + (m + 1)) < Suc (unat m) * Suc (unat n)"
    and "unat (i * (m + 1) + j + (m + 1) + 1) < Suc (unat m) * Suc (unat n)"
proof -
  from i j have lt: "unat i < unat n" "unat j < unat m" by (simp_all add: word_less_nat_alt)
  have m1: "unat (m + 1) \<le> Suc (unat m)"
    using u32_add_le [of m 1] by simp
  have "unat (i * (m + 1)) \<le> unat i * unat (m + 1)" by (rule u32_mult_le)
  also have "\<dots> \<le> unat i * Suc (unat m)" using m1 by (rule mult_le_mono2)
  finally have p: "unat (i * (m + 1)) \<le> unat i * Suc (unat m)" .
  have a: "unat (i * (m + 1) + j) \<le> unat i * Suc (unat m) + unat j"
    using u32_add_le [of "i * (m + 1)" j] p by simp
  have b: "unat (i * (m + 1) + j + 1) \<le> unat i * Suc (unat m) + unat j + 1"
    using u32_add_le [of "i * (m + 1) + j" 1] a by simp
  have c: "unat (i * (m + 1) + j + (m + 1)) \<le> unat i * Suc (unat m) + unat j + Suc (unat m)"
    using u32_add_le [of "i * (m + 1) + j" "m + 1"] a m1 by simp
  have d: "unat (i * (m + 1) + j + (m + 1) + 1) \<le> unat i * Suc (unat m) + unat j + Suc (unat m) + 1"
    using u32_add_le [of "i * (m + 1) + j + (m + 1)" 1] c by simp
  note g = grid_count [OF lt]
  from a g show "unat (i * (m + 1) + j) < Suc (unat m) * Suc (unat n)" by simp
  from b g show "unat (i * (m + 1) + j + 1) < Suc (unat m) * Suc (unat n)" by simp
  from c g show "unat (i * (m + 1) + j + (m + 1)) < Suc (unat m) * Suc (unat n)" by simp
  from d g show "unat (i * (m + 1) + j + (m + 1) + 1) < Suc (unat m) * Suc (unat n)" by simp
qed

lemma grid_indices_bounded:
  fixes q :: "32 word \<Rightarrow> 32 word \<Rightarrow> 32 word list"
  assumes b: "\<And>i j. i < n \<Longrightarrow> j < m \<Longrightarrow> \<forall>x \<in> set (q i j). unat x < B"
    and r: "for_lt 0 n (\<lambda>i is. for_lt 0 m (\<lambda>j is. push_all capacity is (q i j)) is) [] = Inr r"
  shows "\<forall>x \<in> set r. unat x < (B :: nat)"
proof (rule for_lt_partial [where P = "\<lambda>k a. \<forall>x \<in> set a. unat x < B" and i = 0, OF _ _ _ r])
  fix i and a a' :: "32 word list"
  assume i: "i < n" and p: "\<forall>x \<in> set a. unat x < B"
    and l: "for_lt 0 m (\<lambda>j is. push_all capacity is (q i j)) a = Inr a'"
  show "\<forall>x \<in> set a'. unat x < B"
  proof (rule for_lt_partial [where P = "\<lambda>k a. \<forall>x \<in> set a. unat x < B" and i = 0, OF _ _ _ l])
    fix j and x x' :: "32 word list"
    assume j: "j < m" and px: "\<forall>y \<in> set x. unat y < B" and "push_all capacity x (q i j) = Inr x'"
    then have "x' = x @ q i j" by (simp add: push_all_Inr)
    with px b [OF i j] show "\<forall>y \<in> set x'. unat y < B" by auto
  qed (simp_all add: p)
qed simp_all






lemma generator_returns:
  fixes idx :: "exn + 32 word list"
  assumes "\<exists>vs. loop = Some (Inr vs) \<and> length vs = N"
    and "\<exists>is. idx = Inr is \<and> length is = L"
    and "\<And>is. idx = Inr is \<Longrightarrow> \<forall>x \<in> set is. unat x < N"
    and "pair_fits mem N L"
  shows "\<exists>vs is.
      Option.bind loop
        (\<lambda>filled. Some
           (case filled of Inl e \<Rightarrow> Inl e
            | Inr vertices \<Rightarrow>
                (case idx of Inl e \<Rightarrow> Inl e | Inr indices \<Rightarrow> make_pair mem vertices indices)))
      = Some (Inr (vs, is))
    \<and> length vs = N \<and> length is = L \<and> (\<forall>x \<in> set is. unat x < length vs)"
  using assms by (auto simp: make_pair_def)

lemma generator_returned:
  assumes r: "Option.bind loop
        (\<lambda>filled. Some
           (case filled of Inl e \<Rightarrow> Inl e
            | Inr vertices \<Rightarrow>
                (case idx of Inl e \<Rightarrow> Inl e | Inr indices \<Rightarrow> make_pair mem vertices indices)))
      = Some (Inr (vs, is))"
  shows "loop = Some (Inr vs) \<and> idx = Inr is"
proof (cases loop)
  case None
  with r show ?thesis by simp
next
  case (Some filled)
  show ?thesis
  proof (cases filled)
    case (Inl e)
    with r Some show ?thesis by simp
  next
    case v: (Inr vertices)
    show ?thesis
    proof (cases idx)
      case (Inl e)
      with r Some v show ?thesis by simp
    next
      case (Inr indices)
      with r Some v show ?thesis by (simp add: make_pair_def split: if_splits)
    qed
  qed
qed

lemma rectangle_geometry_returns:
  assumes m: "m \<noteq> - 1" and n: "n \<noteq> - 1"
    and mem: "enough_memory mem (Suc (unat m) * Suc (unat n)) (unat m * (6 * unat n))"
  shows "\<exists>vs is. generate_rectangle_geometry_data mem ops w h m n = Some (Inr (vs, is))
    \<and> length vs = Suc (unat m) * Suc (unat n) \<and> length is = unat m * (6 * unat n)
    \<and> (\<forall>x \<in> set is. unat x < length vs)"
  unfolding generate_rectangle_geometry_data_def Let_def
  apply (rule generator_returns)
  subgoal using mem by (intro grid_vertices [OF m n]) (simp add: enough_memory_def)
  subgoal
    using mem
    by (intro grid_indices_returns [where c = "\<lambda>i. 6" and t = "\<lambda>k. 6 * k"])
      (simp_all add: enough_memory_def word_less_nat_alt)
  subgoal
    by (erule grid_indices_bounded [rotated])
      (simp only: list.set ball_simps index_bounds simp_thms)
  subgoal using mem by (simp add: enough_memory_def)
  done

lemma rectangle_edges_returns:
  assumes m: "m \<noteq> - 1" and n: "n \<noteq> - 1"
    and mem: "enough_memory mem (Suc (unat m) * Suc (unat n)) (unat m * (12 * unat n))"
  shows "\<exists>vs is. generate_rectangle_edges_data mem ops w h m n = Some (Inr (vs, is))
    \<and> length vs = Suc (unat m) * Suc (unat n) \<and> length is = unat m * (12 * unat n)
    \<and> (\<forall>x \<in> set is. unat x < length vs)"
  unfolding generate_rectangle_edges_data_def Let_def
  apply (rule generator_returns)
  subgoal using mem by (intro grid_vertices [OF m n]) (simp add: enough_memory_def)
  subgoal
    using mem
    by (intro grid_indices_returns [where c = "\<lambda>i. 12" and t = "\<lambda>k. 12 * k"])
      (simp_all add: enough_memory_def word_less_nat_alt)
  subgoal
    by (erule grid_indices_bounded [rotated])
      (simp only: list.set ball_simps index_bounds simp_thms)
  subgoal using mem by (simp add: enough_memory_def)
  done


lemma rectangle_geometry_indices:
  assumes "generate_rectangle_geometry_data mem ops w h m n = Some (Inr (vs, is))"
  shows "length is = unat m * (6 * unat n)"
  using assms unfolding generate_rectangle_geometry_data_def Let_def
  apply (drule_tac generator_returned)
  apply (erule conjE)
  apply (erule grid_indices_length [where c = "\<lambda>i. 6" and t = "\<lambda>k. 6 * k", rotated 3])
  apply simp_all
  done

lemma rectangle_edges_indices:
  assumes "generate_rectangle_edges_data mem ops w h m n = Some (Inr (vs, is))"
  shows "length is = unat m * (12 * unat n)"
  using assms unfolding generate_rectangle_edges_data_def Let_def
  apply (drule_tac generator_returned)
  apply (erule conjE)
  apply (erule grid_indices_length [where c = "\<lambda>i. 12" and t = "\<lambda>k. 12 * k", rotated 3])
  apply simp_all
  done

lemma rectangle_vertices_agree:
  assumes "generate_rectangle_geometry_data mem ops w h m n = Some (Inr (vs, is))"
    and "generate_rectangle_edges_data mem' ops w h m n = Some (Inr (vs', is'))"
  shows "vs' = vs"
  using assms unfolding generate_rectangle_geometry_data_def generate_rectangle_edges_data_def Let_def
  apply (drule_tac generator_returned)
  apply (drule_tac generator_returned)
  apply (elim conjE)
  apply (drule grid_vertices_free)
  apply (drule grid_vertices_free)
  apply simp
  done

lemma rectangle_geometry_max:
  assumes "m = - 1 \<or> n = - 1"
  shows "generate_rectangle_geometry_data mem ops w h m n \<noteq> Some (Inr (vs, is))"
proof
  assume "generate_rectangle_geometry_data mem ops w h m n = Some (Inr (vs, is))"
  then show False
    unfolding generate_rectangle_geometry_data_def Let_def
    apply (drule_tac generator_returned)
    apply (erule conjE)
    apply (erule notE [OF grid_vertices_max [OF assms]])
    done
qed


lemma rectangle_max_count_throws:
  "generate_rectangle_geometry_data (room 7) bit_ops f1_0 f1_0 (- 1) 1 = Some (Inl bad_alloc)"
  by code_simp

text \<open>What holds of a generator whenever it returns.\<close>

lemma for_le_partial:
  fixes acc :: 'a
  assumes step: "\<And>i acc acc'. P acc \<Longrightarrow> body i acc = Some (Inr acc') \<Longrightarrow> P acc'"
    and r: "for_le i n body acc = Some y"
  shows "P acc \<longrightarrow> (\<forall>r. y = Inr r \<longrightarrow> P r)"
proof -
  have "body = body \<longrightarrow> P acc \<longrightarrow> (\<forall>r. y = Inr r \<longrightarrow> P r)"
  proof (rule for_le.raw_induct [where P = "\<lambda>i n b acc y. b = body \<longrightarrow> P acc \<longrightarrow>
      (\<forall>r. y = Inr r \<longrightarrow> P r)", OF _ r])
    fix f :: "32 word \<Rightarrow> 32 word \<Rightarrow> (32 word \<Rightarrow> 'a \<Rightarrow> (exn + 'a) option) \<Rightarrow> 'a \<Rightarrow> (exn + 'a) option"
      and i n :: "32 word" and b :: "32 word \<Rightarrow> 'a \<Rightarrow> (exn + 'a) option" and acc :: 'a
      and y :: "exn + 'a"
    assume ih: "\<And>i n b acc y. f i n b acc = Some y \<Longrightarrow> b = body \<longrightarrow> P acc \<longrightarrow>
        (\<forall>r. y = Inr r \<longrightarrow> P r)"
      and u: "(if i \<le> n
        then Option.bind (b i acc)
               (\<lambda>r. case r of Inl e \<Rightarrow> Some (Inl e) | Inr acc' \<Rightarrow> f (i + 1) n b acc')
        else Some (Inr acc)) = Some y"
    show "b = body \<longrightarrow> P acc \<longrightarrow> (\<forall>r. y = Inr r \<longrightarrow> P r)"
    proof (intro impI allI)
      fix r assume bb: "b = body" and p: "P acc" and y: "y = Inr r"
      show "P r"
      proof (cases "i \<le> n")
        case False
        with u y have "acc = r" by simp
        with p show ?thesis by simp
      next
        case True
        with u obtain q where q: "b i acc = Some q"
          and c: "(case q of Inl e \<Rightarrow> Some (Inl e) | Inr acc' \<Rightarrow> f (i + 1) n b acc') = Some y"
          by (auto simp: bind_eq_Some_conv)
        from c y obtain acc' where a: "q = Inr acc'" and g: "f (i + 1) n b acc' = Some y"
          by (cases q) auto
        from q a bb have "body i acc = Some (Inr acc')" by simp
        from step [OF p this] have "P acc'" .
        with ih [OF g] bb y show ?thesis by simp
      qed
    qed
  qed
  then show ?thesis by simp
qed

lemma grid_vertices_capacity:
  fixes mk :: "32 word \<Rightarrow> 32 word \<Rightarrow> 'v"
  assumes r: "for_le 0 n (\<lambda>i vs. for_le 0 m (\<lambda>j vs. Some (push_back capacity vs (mk i j))) vs) []
      = Some (Inr vs)"
  shows "length vs \<le> capacity"
proof -
  have push: "length x' \<le> capacity"
    if "Some (push_back capacity x (mk i j)) = Some (Inr x')" for i j and x x' :: "'v list"
    using that by (auto simp: push_back_def split: if_splits)
  have inner: "length a' \<le> capacity"
    if p: "length a \<le> capacity"
      and l: "for_le 0 m (\<lambda>j vs. Some (push_back capacity vs (mk i j))) a = Some (Inr a')"
    for i and a a' :: "'v list"
    using for_le_partial [where P = "\<lambda>x. length x \<le> capacity"
        and body = "\<lambda>j vs. Some (push_back capacity vs (mk i j))", OF _ l] push p
    by blast
  from for_le_partial [where P = "\<lambda>x. length x \<le> capacity"
      and body = "\<lambda>i vs. for_le 0 m (\<lambda>j vs. Some (push_back capacity vs (mk i j))) vs", OF inner r]
  show ?thesis by simp
qed

lemma grid_vertices_free_length:
  fixes mk :: "32 word \<Rightarrow> 32 word \<Rightarrow> 'v"
  assumes m: "m \<noteq> - 1" and n: "n \<noteq> - 1"
  shows "\<exists>vs. for_le 0 n (\<lambda>i vs. for_le 0 m (\<lambda>j vs. Some (Inr (vs @ [mk i j]))) vs) []
      = Some (Inr vs) \<and> length vs = Suc (unat m) * Suc (unat n)"
proof -
  have inner: "\<exists>a'. for_le 0 m (\<lambda>j vs. Some (Inr (vs @ [mk i j]))) a = Some (Inr a')
      \<and> length a' = length a + Suc (unat m)" for i and a :: "'v list"
    by (rule for_le_rule [where P = "\<lambda>k x. length x = length a + k" and i = 0, OF m]) simp_all
  have "\<exists>vs. for_le 0 n (\<lambda>i vs. for_le 0 m (\<lambda>j vs. Some (Inr (vs @ [mk i j]))) vs) []
      = Some (Inr vs) \<and> length vs = Suc (unat n) * Suc (unat m)"
  proof (rule for_le_rule [where P = "\<lambda>k x. length x = k * Suc (unat m)" and i = 0, OF n])
    fix i :: "32 word" and x :: "'v list"
    assume "length x = unat i * Suc (unat m)"
    with inner [of i x]
    show "\<exists>acc'. for_le 0 m (\<lambda>j vs. Some (Inr (vs @ [mk i j]))) x = Some (Inr acc')
        \<and> length acc' = Suc (unat i) * Suc (unat m)"
      by auto
  qed simp_all
  then show ?thesis by (simp add: mult.commute)
qed

lemma grid_vertices_returned:
  fixes mk :: "32 word \<Rightarrow> 32 word \<Rightarrow> 'v"
  assumes r: "for_le 0 n (\<lambda>i vs. for_le 0 m (\<lambda>j vs. Some (push_back capacity vs (mk i j))) vs) []
      = Some (Inr vs)"
  shows "length vs = Suc (unat m) * Suc (unat n) \<and> length vs \<le> capacity"
proof -
  from grid_vertices_max [of m n capacity mk vs] r have mn: "m \<noteq> - 1" "n \<noteq> - 1" by auto
  from grid_vertices_free_length [OF mn, of mk] grid_vertices_free [OF r]
  have "length vs = Suc (unat m) * Suc (unat n)" by auto
  with grid_vertices_capacity [OF r] show ?thesis by simp
qed

lemma push_all_capacity:
  "push_all capacity xs ys = Inr r \<Longrightarrow> length xs \<le> capacity \<Longrightarrow> length r \<le> capacity"
  by (induction ys arbitrary: xs) (fastforce simp: push_back_def split: if_splits)+

lemma grid_indices_capacity:
  fixes q :: "32 word \<Rightarrow> 32 word \<Rightarrow> 32 word list"
  assumes r: "for_lt 0 n (\<lambda>i is. for_lt 0 m (\<lambda>j is. push_all capacity is (q i j)) is) [] = Inr r"
  shows "length r \<le> capacity"
proof (rule for_lt_partial [where P = "\<lambda>k x. length x \<le> capacity" and i = 0, OF _ _ _ r])
  fix i and a a' :: "32 word list"
  assume p: "length a \<le> capacity"
    and l: "for_lt 0 m (\<lambda>j is. push_all capacity is (q i j)) a = Inr a'"
  show "length a' \<le> capacity"
  proof (rule for_lt_partial [where P = "\<lambda>k x. length x \<le> capacity" and i = 0, OF _ _ _ l])
    fix j and x x' :: "32 word list"
    assume "length x \<le> capacity" and "push_all capacity x (q i j) = Inr x'"
    then show "length x' \<le> capacity" by (simp add: push_all_capacity)
  qed (simp_all add: p)
qed simp_all


lemma generator_returned_counts:
  fixes idx :: "exn + 32 word list"
  assumes r: "Option.bind loop
        (\<lambda>filled. Some
           (case filled of Inl e \<Rightarrow> Inl e
            | Inr vertices \<Rightarrow>
                (case idx of Inl e \<Rightarrow> Inl e | Inr indices \<Rightarrow> make_pair mem vertices indices)))
      = Some (Inr (vs, is))"
    and v: "\<And>vs. loop = Some (Inr vs) \<Longrightarrow> length vs = N \<and> length vs \<le> vertex_capacity mem"
    and i: "\<And>is. idx = Inr is \<Longrightarrow>
      length is = L \<and> length is \<le> index_capacity mem \<and> (\<forall>x \<in> set is. unat x < N)"
  shows "length vs = N \<and> length is = L \<and> (\<forall>x \<in> set is. unat x < length vs)
    \<and> enough_memory mem (length vs) (length is)"
proof (cases loop)
  case None
  with r show ?thesis by simp
next
  case (Some filled)
  show ?thesis
  proof (cases filled)
    case (Inl e)
    with r Some show ?thesis by simp
  next
    case f: (Inr vertices)
    show ?thesis
    proof (cases idx)
      case (Inl e)
      with r Some f show ?thesis by simp
    next
      case (Inr indices)
      with r Some f have e: "vertices = vs" "indices = is"
        and p: "pair_fits mem (length vs) (length is)"
        by (auto simp: make_pair_def split: if_splits)
      from v [of vs] Some f e have "length vs = N \<and> length vs \<le> vertex_capacity mem" by simp
      moreover from i [of "is"] Inr e
      have "length is = L \<and> length is \<le> index_capacity mem \<and> (\<forall>x \<in> set is. unat x < N)"
        by simp
      ultimately show ?thesis using p by (simp add: enough_memory_def)
    qed
  qed
qed

lemma rectangle_geometry_returned:
  assumes "generate_rectangle_geometry_data mem ops w h m n = Some (Inr (vs, is))"
  shows "length vs = Suc (unat m) * Suc (unat n) \<and> length is = unat m * (6 * unat n)
    \<and> (\<forall>x \<in> set is. unat x < length vs) \<and> enough_memory mem (length vs) (length is)"
  using assms unfolding generate_rectangle_geometry_data_def Let_def
  apply (erule_tac generator_returned_counts)
  subgoal by (erule grid_vertices_returned)
  subgoal
    apply (intro conjI)
    subgoal
      by (erule grid_indices_length [where c = "\<lambda>i. 6" and t = "\<lambda>k. 6 * k", rotated 3]) simp_all
    subgoal by (erule grid_indices_capacity)
    subgoal
      by (erule grid_indices_bounded [rotated])
        (simp only: list.set ball_simps index_bounds simp_thms)
    done
  done


lemma rectangle_edges_returned:
  assumes "generate_rectangle_edges_data mem ops w h m n = Some (Inr (vs, is))"
  shows "length vs = Suc (unat m) * Suc (unat n) \<and> length is = unat m * (12 * unat n)
    \<and> (\<forall>x \<in> set is. unat x < length vs) \<and> enough_memory mem (length vs) (length is)"
  using assms unfolding generate_rectangle_edges_data_def Let_def
  apply (erule_tac generator_returned_counts)
  subgoal by (erule grid_vertices_returned)
  subgoal
    apply (intro conjI)
    subgoal
      by (erule grid_indices_length [where c = "\<lambda>i. 12" and t = "\<lambda>k. 12 * k", rotated 3]) simp_all
    subgoal by (erule grid_indices_capacity)
    subgoal
      by (erule grid_indices_bounded [rotated])
        (simp only: list.set ball_simps index_bounds simp_thms)
    done
  done

lemma rectangle_edges_max:
  assumes "m = - 1 \<or> n = - 1"
  shows "generate_rectangle_edges_data mem ops w h m n \<noteq> Some (Inr (vs, is))"
proof
  assume "generate_rectangle_edges_data mem ops w h m n = Some (Inr (vs, is))"
  then show False
    unfolding generate_rectangle_edges_data_def Let_def
    apply (drule_tac generator_returned)
    apply (erule conjE)
    apply (erule notE [OF grid_vertices_max [OF assms]])
    done
qed

section \<open>The claims about the shader program\<close>

text \<open>
  C1. \<open>use()\<close> calls \<open>glUseProgram\<close> on the stored handle exactly when the handle is not
  \<open>-1\<close> (the Compiled state); with the handle \<open>-1\<close> (Uninitialized) it leaves the world as
  it is, and so it does on a program that \<open>compile()\<close> has left Dead, because a Dead
  program has the handle \<open>-1\<close>. Nothing is written to \<open>std::cerr\<close> and there is no error
  result.
\<close>

theorem use_binds_iff_compiled:
  "(program s \<noteq> - 1 \<longrightarrow>
      new_calls w (use d s w) = [glUseProgram (program s)] \<and> cerr (use d s w) = cerr w)
   \<and> (program s = - 1 \<longrightarrow> use d s w = w)
   \<and> (dead (fst (compile d s w)) \<longrightarrow> use d (fst (compile d s w)) w' = w')"
proof (intro conjI impI)
  assume "dead (fst (compile d s w))"
  then have "program (fst (compile d s w)) = - 1" by (simp add: compile_dead_iff)
  then show "use d (fst (compile d s w)) w' = w'" by (simp add: use_def)
qed (simp_all add: use_def gl_void_def new_calls_def)

theorem use_binds_iff_compiled_witness:
  "new_calls quiet (use (scripted_driver 3 1) ((sample_shader ''ok'' ''ok'')\<lparr>program := 3\<rparr>) quiet) = [glUseProgram 3]
   \<and> use (scripted_driver 3 1) (sample_shader ''ok'' ''ok'') quiet = quiet
   \<and> dead (fst (compile (scripted_driver 3 1) (sample_shader ''bad'' ''ok'') quiet))
   \<and> use (scripted_driver 3 1) (fst (compile (scripted_driver 3 1) (sample_shader ''bad'' ''ok'') quiet)) quiet = quiet"
proof -
  have a: "program ((sample_shader ''ok'' ''ok'')\<lparr>program := 3\<rparr>) \<noteq> - 1"
    by (simp add: sample_shader_def)
  have b: "program (sample_shader ''ok'' ''ok'') = - 1"
    by (simp add: sample_shader_def)
  have c: "dead (fst (compile (scripted_driver 3 1) (sample_shader ''bad'' ''ok'') quiet))"
    by code_simp
  show ?thesis
    using a b c
      use_binds_iff_compiled [where s = "(sample_shader ''ok'' ''ok'')\<lparr>program := 3\<rparr>"
        and d = "scripted_driver 3 1" and w = quiet and w' = quiet]
      use_binds_iff_compiled [where s = "sample_shader ''ok'' ''ok''"
        and d = "scripted_driver 3 1" and w = quiet and w' = quiet]
      use_binds_iff_compiled [where s = "sample_shader ''bad'' ''ok''"
        and d = "scripted_driver 3 1" and w = quiet and w' = quiet]
    by simp
qed

text \<open>
  C5. From any state, \<open>cleanup()\<close> deletes the program object if the handle is not \<open>-1\<close>,
  leaves the handle \<open>-1\<close> and the Dead flag false; a second \<open>cleanup()\<close> right after it
  returns the same state and makes no call into the library.
\<close>

theorem cleanup_idempotent:
  "program (fst (cleanup d s w)) = - 1 \<and> \<not> dead (fst (cleanup d s w))
   \<and> new_calls w (snd (cleanup d s w))
       = (if program s \<noteq> - 1 then [glDeleteProgram (program s)] else [])
   \<and> cleanup d (fst (cleanup d s w)) (snd (cleanup d s w)) = cleanup d s w
   \<and> new_calls (snd (cleanup d s w)) (snd (cleanup d (fst (cleanup d s w)) (snd (cleanup d s w)))) = []"
  by (simp add: cleanup_def gl_void_def new_calls_def)

text \<open>
  C2. A run in which both stages compile and the link fails: the program ends Dead with the
  handle \<open>-1\<close>, and the calls made end with the query of the linker log. Neither
  \<open>glDeleteShader 1\<close> (the vertex object) nor \<open>glDeleteShader 2\<close> (the fragment object) is
  among them: \<open>_link_shader\<close> returns before the four calls that detach and delete the
  shader objects, which only the successful path reaches.
\<close>

theorem compile_link_failure_keeps_shader_objects:
  "vertex_status (scripted_driver 3 0) (sample_shader ''ok'' ''ok'') quiet \<noteq> GL_FALSE
   \<and> fragment_status (scripted_driver 3 0) (sample_shader ''ok'' ''ok'') quiet \<noteq> GL_FALSE
   \<and> program_status (scripted_driver 3 0) (sample_shader ''ok'' ''ok'') quiet = GL_FALSE
   \<and> dead (fst (compile (scripted_driver 3 0) (sample_shader ''ok'' ''ok'') quiet))
   \<and> program (fst (compile (scripted_driver 3 0) (sample_shader ''ok'' ''ok'') quiet)) = - 1
   \<and> gl_trace (snd (compile (scripted_driver 3 0) (sample_shader ''ok'' ''ok'') quiet)) =
       [glCreateShader GL_VERTEX_SHADER, glShaderSource 1 ''ok'', glCompileShader 1,
        glGetShaderiv 1 GL_COMPILE_STATUS,
        glCreateShader GL_FRAGMENT_SHADER, glShaderSource 2 ''ok'', glCompileShader 2,
        glGetShaderiv 2 GL_COMPILE_STATUS,
        glCreateProgram, glAttachShader 3 1, glAttachShader 3 2, glLinkProgram 3,
        glGetProgramiv 3 GL_LINK_STATUS, glGetProgramiv 3 GL_INFO_LOG_LENGTH,
        glGetProgramInfoLog 3 6]
   \<and> glDeleteShader 1 \<notin> set (gl_trace (snd (compile (scripted_driver 3 0) (sample_shader ''ok'' ''ok'') quiet)))
   \<and> glDeleteShader 2 \<notin> set (gl_trace (snd (compile (scripted_driver 3 0) (sample_shader ''ok'' ''ok'') quiet)))"
  by code_simp

text \<open>
  C3. When the library reports the compile status \<open>GL_FALSE\<close> for the vertex stage,
  \<open>compile()\<close> ends Dead, writes the report with the info log to \<open>std::cerr\<close> (nothing when
  the library gives the log length 0), and creates neither a fragment shader object nor a
  program. When the vertex stage compiles and the fragment stage is reported \<open>GL_FALSE\<close>,
  \<open>compile()\<close> ends Dead and neither creates nor links a program, and the report of the
  fragment log is written.
\<close>

theorem compile_stage_failure:
  "(vertex_status d s w = GL_FALSE \<longrightarrow>
      dead (fst (compile d s w)) \<and> program (fst (compile d s w)) = - 1
      \<and> glCreateShader GL_FRAGMENT_SHADER \<notin> set (new_calls w (snd (compile d s w)))
      \<and> glCreateProgram \<notin> set (new_calls w (snd (compile d s w)))
      \<and> cerr (snd (compile d s w)) =
          cerr w @ (if 0 < sint (vertex_log_length d s w) then compile_report (vertex_log d s w) else []))
   \<and> (vertex_status d s w \<noteq> GL_FALSE \<and> fragment_status d s w = GL_FALSE \<longrightarrow>
      dead (fst (compile d s w)) \<and> program (fst (compile d s w)) = - 1
      \<and> glCreateProgram \<notin> set (new_calls w (snd (compile d s w)))
      \<and> (\<forall>p. glLinkProgram p \<notin> set (new_calls w (snd (compile d s w))))
      \<and> (vertex_object d s w \<noteq> - 1 \<longrightarrow>
          cerr (snd (compile d s w)) =
            cerr w @ (if 0 < sint (fragment_log_length d s w) then compile_report (fragment_log d s w) else [])))"
proof (intro conjI impI)
  assume v: "vertex_status d s w = GL_FALSE"
  note r = vertex_failure_run [OF v]
  show "dead (fst (compile d s w))" "program (fst (compile d s w)) = - 1"
    by (simp_all add: r(1))
  show "glCreateShader GL_FRAGMENT_SHADER \<notin> set (new_calls w (snd (compile d s w)))"
    "glCreateProgram \<notin> set (new_calls w (snd (compile d s w)))"
    by (simp_all add: r(2) cleanup_calls_def stage_calls_def)
  show "cerr (snd (compile d s w)) =
      cerr w @ (if 0 < sint (vertex_log_length d s w) then compile_report (vertex_log d s w) else [])"
    by (rule r(3))
next
  assume "vertex_status d s w \<noteq> GL_FALSE \<and> fragment_status d s w = GL_FALSE"
  then have v: "vertex_status d s w \<noteq> GL_FALSE" and f: "fragment_status d s w = GL_FALSE"
    by simp_all
  have "dead (fst (compile d s w)) \<and> program (fst (compile d s w)) = - 1
      \<and> glCreateProgram \<notin> set (new_calls w (snd (compile d s w)))
      \<and> (\<forall>p. glLinkProgram p \<notin> set (new_calls w (snd (compile d s w))))"
  proof (cases "vertex_object d s w = - 1")
    case True
    note r = vertex_object_bad_run [OF v True]
    show ?thesis by (simp add: r(1,2) cleanup_calls_def stage_calls_def)
  next
    case False
    note r = fragment_failure_run [OF v False f]
    show ?thesis by (simp add: r(1,2) cleanup_calls_def stage_calls_def)
  qed
  then show "dead (fst (compile d s w))" "program (fst (compile d s w)) = - 1"
    "glCreateProgram \<notin> set (new_calls w (snd (compile d s w)))"
    "\<forall>p. glLinkProgram p \<notin> set (new_calls w (snd (compile d s w)))"
    by simp_all
  assume "vertex_object d s w \<noteq> - 1"
  from fragment_failure_run(3) [OF v this f]
  show "cerr (snd (compile d s w)) =
      cerr w @ (if 0 < sint (fragment_log_length d s w) then compile_report (fragment_log d s w) else [])" .
qed

theorem compile_stage_failure_witness:
  "vertex_status (scripted_driver 3 1) (sample_shader ''bad'' ''ok'') quiet = GL_FALSE
   \<and> dead (fst (compile (scripted_driver 3 1) (sample_shader ''bad'' ''ok'') quiet))
   \<and> glCreateShader GL_FRAGMENT_SHADER
       \<notin> set (new_calls quiet (snd (compile (scripted_driver 3 1) (sample_shader ''bad'' ''ok'') quiet)))
   \<and> cerr (snd (compile (scripted_driver 3 1) (sample_shader ''bad'' ''ok'') quiet))
       = compile_report ''error''
   \<and> vertex_status (scripted_driver 3 1) (sample_shader ''ok'' ''bad'') quiet \<noteq> GL_FALSE
   \<and> fragment_status (scripted_driver 3 1) (sample_shader ''ok'' ''bad'') quiet = GL_FALSE
   \<and> dead (fst (compile (scripted_driver 3 1) (sample_shader ''ok'' ''bad'') quiet))
   \<and> glCreateProgram
       \<notin> set (new_calls quiet (snd (compile (scripted_driver 3 1) (sample_shader ''ok'' ''bad'') quiet)))
   \<and> cerr (snd (compile (scripted_driver 3 1) (sample_shader ''ok'' ''bad'') quiet))
       = compile_report ''error''"
proof -
  have v: "vertex_status (scripted_driver 3 1) (sample_shader ''bad'' ''ok'') quiet = GL_FALSE"
    by code_simp
  have vl: "0 < sint (vertex_log_length (scripted_driver 3 1) (sample_shader ''bad'' ''ok'') quiet)"
    "vertex_log (scripted_driver 3 1) (sample_shader ''bad'' ''ok'') quiet = ''error''"
    "cerr quiet = []"
    by code_simp+
  have f: "vertex_status (scripted_driver 3 1) (sample_shader ''ok'' ''bad'') quiet \<noteq> GL_FALSE"
    "fragment_status (scripted_driver 3 1) (sample_shader ''ok'' ''bad'') quiet = GL_FALSE"
    "vertex_object (scripted_driver 3 1) (sample_shader ''ok'' ''bad'') quiet \<noteq> - 1"
    by code_simp+
  have fl: "0 < sint (fragment_log_length (scripted_driver 3 1) (sample_shader ''ok'' ''bad'') quiet)"
    "fragment_log (scripted_driver 3 1) (sample_shader ''ok'' ''bad'') quiet = ''error''"
    by code_simp+
  show ?thesis
    using v vl f fl
      compile_stage_failure [where d = "scripted_driver 3 1" and s = "sample_shader ''bad'' ''ok''"
        and w = quiet]
      compile_stage_failure [where d = "scripted_driver 3 1" and s = "sample_shader ''ok'' ''bad''"
        and w = quiet]
    by simp
qed

text \<open>
  C4, as stated, fails: \<open>compile()\<close> reads the object names through \<open>int\<close> and takes
  \<open>-1\<close> for a failure, so a run in which both stages compile, the link succeeds and the
  program is named \<open>0xFFFFFFFF\<close> ends Dead.
\<close>

theorem compile_recovers_counterexample:
  "\<not> (\<forall>d s w. dead s \<and> gl_accepts d s w \<longrightarrow>
         program (fst (compile d s w)) \<noteq> - 1 \<and> \<not> dead (fst (compile d s w)))"
proof
  assume a: "\<forall>d s w. dead s \<and> gl_accepts d s w \<longrightarrow>
         program (fst (compile d s w)) \<noteq> - 1 \<and> \<not> dead (fst (compile d s w))"
  have "dead ((sample_shader ''ok'' ''ok'')\<lparr>dead := True\<rparr>)
      \<and> gl_accepts (scripted_driver (- 1) 1) ((sample_shader ''ok'' ''ok'')\<lparr>dead := True\<rparr>) quiet"
    by code_simp
  with a have "\<not> dead (fst (compile (scripted_driver (- 1) 1) ((sample_shader ''ok'' ''ok'')\<lparr>dead := True\<rparr>) quiet))"
    by blast
  moreover have "dead (fst (compile (scripted_driver (- 1) 1) ((sample_shader ''ok'' ''ok'')\<lparr>dead := True\<rparr>) quiet))"
    by code_simp
  ultimately show False by simp
qed

text \<open>
  C4, amended. \<open>compile()\<close> starts with the calls of \<open>cleanup()\<close> (the deletion of the held
  program, if any) and its result does not depend on the Dead flag it starts from. When
  both stages compile, the link succeeds and none of the three names the library hands out
  is \<open>0xFFFFFFFF\<close>, the program ends Compiled, holding the new name, with the Dead flag
  false, whatever the state before (a Dead one too). A second \<open>compile()\<close> starts by
  deleting the program the first one left, so the shader never holds two programs.
\<close>

theorem compile_resets_then_builds:
  "(\<exists>rest. new_calls w (snd (compile d s w)) = cleanup_calls s @ rest)
   \<and> compile d (s\<lparr>dead := b\<rparr>) w = compile d s w
   \<and> (gl_accepts d s w \<and> names_valid d s w \<longrightarrow>
        program (fst (compile d s w)) = program_object d s w
        \<and> program (fst (compile d s w)) \<noteq> - 1 \<and> \<not> dead (fst (compile d s w)))
   \<and> (\<exists>rest. new_calls (snd (compile d s w))
                (snd (compile d (fst (compile d s w)) (snd (compile d s w))))
              = cleanup_calls (fst (compile d s w)) @ rest)"
proof -
  have first: "\<exists>rest. new_calls w (snd (compile d s w)) = cleanup_calls s @ rest" for s w
  proof (cases "vertex_status d s w = GL_FALSE")
    case True
    then show ?thesis by (simp add: vertex_failure_run(2))
  next
    case v: False
    show ?thesis
    proof (cases "vertex_object d s w = - 1")
      case True
      with v show ?thesis by (simp add: vertex_object_bad_run(2))
    next
      case vo: False
      show ?thesis
      proof (cases "fragment_status d s w = GL_FALSE")
        case True
        with v vo show ?thesis by (simp add: fragment_failure_run(2))
      next
        case f: False
        show ?thesis
        proof (cases "fragment_object d s w = - 1")
          case True
          have "gl_trace (snd (compile d s w)) = gl_trace w @ (cleanup_calls s
              @ stage_calls d GL_VERTEX_SHADER (vertex_shader_source s) (vertex_world d s w)
              @ stage_calls d GL_FRAGMENT_SHADER (fragment_shader_source s) (fragment_world d s w))"
            using v vo f True by (simp add: compile_fragment_object_bad link_world_run(1))
          then show ?thesis by (simp add: new_calls_append)
        next
          case fo: False
          show ?thesis
          proof (cases "program_status d s w = GL_FALSE")
            case True
            with v vo f fo show ?thesis by (simp add: link_failure_run(2) build_calls_def)
          next
            case False
            with v vo f fo show ?thesis by (simp add: link_success_calls build_calls_def)
          qed
        qed
      qed
    qed
  qed
  have flag: "compile d (s\<lparr>dead := b\<rparr>) w = compile d s w"
    by (simp add: compile_def cleanup_def)
  have build: "gl_accepts d s w \<and> names_valid d s w \<longrightarrow>
        program (fst (compile d s w)) = program_object d s w
        \<and> program (fst (compile d s w)) \<noteq> - 1 \<and> \<not> dead (fst (compile d s w))"
  proof
    assume h: "gl_accepts d s w \<and> names_valid d s w"
    then have ok: "program (fst (compile d s w)) \<noteq> - 1" by (simp add: compile_success_iff)
    from h have "program (fst (compile d s w)) = program_object d s w"
      by (simp add: link_success_run(1) gl_accepts_def names_valid_def)
    with ok show "program (fst (compile d s w)) = program_object d s w
        \<and> program (fst (compile d s w)) \<noteq> - 1 \<and> \<not> dead (fst (compile d s w))"
      by (simp add: compile_dead_iff)
  qed
  show ?thesis
    using first [of w s] first [of "snd (compile d s w)" "fst (compile d s w)"] flag build
    by blast
qed

theorem compile_resets_then_builds_witness:
  "dead ((sample_shader ''ok'' ''ok'')\<lparr>dead := True\<rparr>)
   \<and> gl_accepts (scripted_driver 3 1) ((sample_shader ''ok'' ''ok'')\<lparr>dead := True\<rparr>) quiet
   \<and> names_valid (scripted_driver 3 1) ((sample_shader ''ok'' ''ok'')\<lparr>dead := True\<rparr>) quiet
   \<and> program (fst (compile (scripted_driver 3 1) ((sample_shader ''ok'' ''ok'')\<lparr>dead := True\<rparr>) quiet)) = 3
   \<and> \<not> dead (fst (compile (scripted_driver 3 1) ((sample_shader ''ok'' ''ok'')\<lparr>dead := True\<rparr>) quiet))"
proof -
  have h: "gl_accepts (scripted_driver 3 1) ((sample_shader ''ok'' ''ok'')\<lparr>dead := True\<rparr>) quiet"
    "names_valid (scripted_driver 3 1) ((sample_shader ''ok'' ''ok'')\<lparr>dead := True\<rparr>) quiet"
    "program_object (scripted_driver 3 1) ((sample_shader ''ok'' ''ok'')\<lparr>dead := True\<rparr>) quiet = 3"
    "dead ((sample_shader ''ok'' ''ok'')\<lparr>dead := True\<rparr>)"
    by code_simp+
  show ?thesis
    using h compile_resets_then_builds [where d = "scripted_driver 3 1"
        and s = "(sample_shader ''ok'' ''ok'')\<lparr>dead := True\<rparr>" and w = quiet and b = True]
    by simp
qed

text \<open>
  C6. When \<open>compile()\<close> ends Compiled, both stages compiled and the link succeeded, and
  the two tables keep their names, each name now mapped to what the library answered to
  \<open>glGetAttribLocation\<close> or \<open>glGetUniformLocation\<close> for it on the new program; these
  queries are the last calls of the run, right after the shader objects are released.
  Whatever the answer is (also \<open>-1\<close>) it is stored as it is, and the program stays
  Compiled. When a stage or the link fails, both tables are what they were.
\<close>

theorem compile_resolves_locations:
  "(program (fst (compile d s w)) \<noteq> - 1 \<longrightarrow>
      gl_accepts d s w \<and> \<not> dead (fst (compile d s w))
      \<and> map fst (attributes (fst (compile d s w))) = map fst (attributes s)
      \<and> map fst (uniforms (fst (compile d s w))) = map fst (uniforms s)
      \<and> (\<forall>name \<in> set (map fst (attributes s)).
            \<exists>v. map_of (attributes (fst (compile d s w))) name = Some v
              \<and> answered d (gl_trace (snd (compile d s w)))
                   (glGetAttribLocation (program (fst (compile d s w))) name) v)
      \<and> (\<forall>name \<in> set (map fst (uniforms s)).
            \<exists>v. map_of (uniforms (fst (compile d s w))) name = Some v
              \<and> answered d (gl_trace (snd (compile d s w)))
                   (glGetUniformLocation (program (fst (compile d s w))) name) v)
      \<and> new_calls w (snd (compile d s w)) =
          build_calls d s w
          @ release_calls (program_object d s w) (vertex_object d s w) (fragment_object d s w)
          @ map (\<lambda>a. glGetAttribLocation (program_object d s w) (fst a)) (attributes s)
          @ map (\<lambda>u. glGetUniformLocation (program_object d s w) (fst u)) (uniforms s))
   \<and> (vertex_status d s w = GL_FALSE \<or> fragment_status d s w = GL_FALSE
        \<or> program_status d s w = GL_FALSE \<longrightarrow>
      attributes (fst (compile d s w)) = attributes s
      \<and> uniforms (fst (compile d s w)) = uniforms s)"
proof (intro conjI impI)
  assume "vertex_status d s w = GL_FALSE \<or> fragment_status d s w = GL_FALSE
      \<or> program_status d s w = GL_FALSE"
  from compile_failure_keeps_tables [OF this]
  show "attributes (fst (compile d s w)) = attributes s" "uniforms (fst (compile d s w)) = uniforms s"
    by simp_all
next
  assume ok: "program (fst (compile d s w)) \<noteq> - 1"
  then have a: "gl_accepts d s w" and n: "names_valid d s w"
    by (simp_all add: compile_success_iff)
  from a n have h: "vertex_status d s w \<noteq> GL_FALSE" "vertex_object d s w \<noteq> - 1"
    "fragment_status d s w \<noteq> GL_FALSE" "fragment_object d s w \<noteq> - 1"
    "program_status d s w \<noteq> GL_FALSE"
    by (simp_all add: gl_accepts_def names_valid_def)
  note r = link_success_run [OF h]
  define p where "p = program_object d s w"
  define ra where "ra = resolve_attributes d p (attributes s) (attributes s) (released_world d s w)"
  define ru where "ru = resolve_uniforms d p (uniforms s) (uniforms s) (snd ra)"
  have at: "attributes (fst (compile d s w)) = fst ra" and un: "uniforms (fst (compile d s w)) = fst ru"
    and wo: "snd (compile d s w) = snd ru" and pr: "program (fst (compile d s w)) = p"
    by (simp_all add: r ra_def ru_def p_def)
  show "gl_accepts d s w" by (rule a)
  show "\<not> dead (fst (compile d s w))"
    using ok by (simp add: compile_dead_iff)
  show "map fst (attributes (fst (compile d s w))) = map fst (attributes s)"
    by (simp add: at ra_def resolve_attributes_keys)
  show "map fst (uniforms (fst (compile d s w))) = map fst (uniforms s)"
    by (simp add: un ru_def resolve_uniforms_keys)
  show "\<forall>name \<in> set (map fst (attributes s)).
      \<exists>v. map_of (attributes (fst (compile d s w))) name = Some v
        \<and> answered d (gl_trace (snd (compile d s w)))
             (glGetAttribLocation (program (fst (compile d s w))) name) v"
  proof
    fix name assume "name \<in> set (map fst (attributes s))"
    then have "name \<in> fst ` set (attributes s)" by simp
    from resolve_attributes_value [OF this, of d p "attributes s" "released_world d s w"]
    obtain v where v: "map_of (fst ra) name = Some v"
      "answered d (gl_trace (snd ra)) (glGetAttribLocation p name) v"
      unfolding ra_def by blast
    have "gl_trace (snd ru) = gl_trace (snd ra) @ map (\<lambda>a. glGetUniformLocation p (fst a)) (uniforms s)"
      by (simp add: ru_def resolve_uniforms_trace)
    with v(2) have "answered d (gl_trace (snd ru)) (glGetAttribLocation p name) v"
      by (simp add: answered_append)
    with v(1) show "\<exists>v. map_of (attributes (fst (compile d s w))) name = Some v
        \<and> answered d (gl_trace (snd (compile d s w)))
             (glGetAttribLocation (program (fst (compile d s w))) name) v"
      by (simp add: at wo pr)
  qed
  show "\<forall>name \<in> set (map fst (uniforms s)).
      \<exists>v. map_of (uniforms (fst (compile d s w))) name = Some v
        \<and> answered d (gl_trace (snd (compile d s w)))
             (glGetUniformLocation (program (fst (compile d s w))) name) v"
  proof
    fix name assume "name \<in> set (map fst (uniforms s))"
    then have "name \<in> fst ` set (uniforms s)" by simp
    from resolve_uniforms_value [OF this, of d p "uniforms s" "snd ra"]
    show "\<exists>v. map_of (uniforms (fst (compile d s w))) name = Some v
        \<and> answered d (gl_trace (snd (compile d s w)))
             (glGetUniformLocation (program (fst (compile d s w))) name) v"
      by (simp add: un wo pr ru_def)
  qed
  show "new_calls w (snd (compile d s w)) =
          build_calls d s w
          @ release_calls (program_object d s w) (vertex_object d s w) (fragment_object d s w)
          @ map (\<lambda>a. glGetAttribLocation (program_object d s w) (fst a)) (attributes s)
          @ map (\<lambda>u. glGetUniformLocation (program_object d s w) (fst u)) (uniforms s)"
    by (rule link_success_calls [OF h])
qed

theorem compile_resolves_locations_witness:
  "program (fst (compile (scripted_driver 3 1) (sample_shader ''ok'' ''ok'') quiet)) \<noteq> - 1
   \<and> \<not> dead (fst (compile (scripted_driver 3 1) (sample_shader ''ok'' ''ok'') quiet))
   \<and> map fst (attributes (fst (compile (scripted_driver 3 1) (sample_shader ''ok'' ''ok'') quiet)))
       = [''color'', ''position'']
   \<and> attributes (fst (compile (scripted_driver 3 1) (sample_shader ''ok'' ''ok'') quiet))
       = [(''color'', - 1), (''position'', 0)]
   \<and> uniforms (fst (compile (scripted_driver 3 1) (sample_shader ''ok'' ''ok'') quiet))
       = [(''point_size'', 3), (''texture_enabled'', - 1)]
   \<and> vertex_status (scripted_driver 3 1) (sample_shader ''bad'' ''ok'') quiet = GL_FALSE
   \<and> attributes (fst (compile (scripted_driver 3 1) (sample_shader ''bad'' ''ok'') quiet))
       = [(''color'', - 1), (''position'', - 1)]"
proof -
  have h: "program (fst (compile (scripted_driver 3 1) (sample_shader ''ok'' ''ok'') quiet)) \<noteq> - 1"
    "attributes (fst (compile (scripted_driver 3 1) (sample_shader ''ok'' ''ok'') quiet))
       = [(''color'', - 1), (''position'', 0)]"
    "uniforms (fst (compile (scripted_driver 3 1) (sample_shader ''ok'' ''ok'') quiet))
       = [(''point_size'', 3), (''texture_enabled'', - 1)]"
    "vertex_status (scripted_driver 3 1) (sample_shader ''bad'' ''ok'') quiet = GL_FALSE"
    "attributes (sample_shader ''ok'' ''ok'') = [(''color'', - 1), (''position'', - 1)]"
    "attributes (sample_shader ''bad'' ''ok'') = [(''color'', - 1), (''position'', - 1)]"
    by code_simp+
  show ?thesis
    using h
      compile_resolves_locations [where d = "scripted_driver 3 1" and s = "sample_shader ''ok'' ''ok''"
        and w = quiet]
      compile_resolves_locations [where d = "scripted_driver 3 1" and s = "sample_shader ''bad'' ''ok''"
        and w = quiet]
    by simp
qed

section \<open>The claims about the generators\<close>




text \<open>
  C9. For the same arguments, whenever \<open>generate_rectangle_geometry_data\<close> and
  \<open>generate_rectangle_edges_data\<close> both return (in two runs, each with its own storage),
  their vertex sequences are identical. The first returns \<open>6*m*n\<close> indices and the
  second \<open>12*m*n\<close>. Each returns exactly when neither count is \<open>0xFFFFFFFF\<close> and the
  storage of its run suffices for the \<open>(m+1)*(n+1)\<close> vertices, its indices and the pair.
\<close>

theorem rectangle_edges_same_vertices:
  "(\<forall>vs is vs' is'.
       generate_rectangle_geometry_data mem ops w h m n = Some (Inr (vs, is))
       \<and> generate_rectangle_edges_data mem' ops w h m n = Some (Inr (vs', is'))
       \<longrightarrow> vs' = vs)
   \<and> (\<forall>vs is. generate_rectangle_geometry_data mem ops w h m n = Some (Inr (vs, is))
         \<longrightarrow> length is = 6 * unat m * unat n)
   \<and> (\<forall>vs is. generate_rectangle_edges_data mem' ops w h m n = Some (Inr (vs, is))
         \<longrightarrow> length is = 12 * unat m * unat n)
   \<and> ((\<exists>vs is. generate_rectangle_geometry_data mem ops w h m n = Some (Inr (vs, is)))
        \<longleftrightarrow> m \<noteq> - 1 \<and> n \<noteq> - 1
          \<and> enough_memory mem ((unat m + 1) * (unat n + 1)) (6 * unat m * unat n))
   \<and> ((\<exists>vs is. generate_rectangle_edges_data mem' ops w h m n = Some (Inr (vs, is)))
        \<longleftrightarrow> m \<noteq> - 1 \<and> n \<noteq> - 1
          \<and> enough_memory mem' ((unat m + 1) * (unat n + 1)) (12 * unat m * unat n))"
proof -
  have e: "(unat m + 1) * (unat n + 1) = Suc (unat m) * Suc (unat n)"
    "6 * unat m * unat n = unat m * (6 * unat n)"
    "12 * unat m * unat n = unat m * (12 * unat n)"
    by simp_all
  have geom: "length is = unat m * (6 * unat n)
      \<and> enough_memory mem (Suc (unat m) * Suc (unat n)) (unat m * (6 * unat n))
      \<and> m \<noteq> - 1 \<and> n \<noteq> - 1"
    if g: "generate_rectangle_geometry_data mem ops w h m n = Some (Inr (vs, is))" for vs "is"
  proof -
    from rectangle_geometry_max [of m n mem ops w h vs "is"] g
    have "m \<noteq> - 1 \<and> n \<noteq> - 1" by blast
    with rectangle_geometry_returned [OF g] show ?thesis by metis
  qed
  have edges: "length is = unat m * (12 * unat n)
      \<and> enough_memory mem' (Suc (unat m) * Suc (unat n)) (unat m * (12 * unat n))
      \<and> m \<noteq> - 1 \<and> n \<noteq> - 1"
    if g: "generate_rectangle_edges_data mem' ops w h m n = Some (Inr (vs, is))" for vs "is"
  proof -
    from rectangle_edges_max [of m n mem' ops w h vs "is"] g
    have "m \<noteq> - 1 \<and> n \<noteq> - 1" by blast
    with rectangle_edges_returned [OF g] show ?thesis by metis
  qed
  have geom': "\<exists>vs is. generate_rectangle_geometry_data mem ops w h m n = Some (Inr (vs, is))"
    if "m \<noteq> - 1 \<and> n \<noteq> - 1
      \<and> enough_memory mem (Suc (unat m) * Suc (unat n)) (unat m * (6 * unat n))"
    using rectangle_geometry_returns [of m n mem ops w h] that by blast
  have edges': "\<exists>vs is. generate_rectangle_edges_data mem' ops w h m n = Some (Inr (vs, is))"
    if "m \<noteq> - 1 \<and> n \<noteq> - 1
      \<and> enough_memory mem' (Suc (unat m) * Suc (unat n)) (unat m * (12 * unat n))"
    using rectangle_edges_returns [of m n mem' ops w h] that by blast
  show ?thesis
    unfolding e
    apply (intro impI conjI allI iffI)
    subgoal by (auto intro: rectangle_vertices_agree)
    subgoal using geom by blast
    subgoal using edges by blast
    subgoal using geom by blast
    subgoal using geom by blast
    subgoal using geom by blast
    subgoal using geom' by blast
    subgoal using edges by blast
    subgoal using edges by blast
    subgoal using edges by blast
    subgoal using edges' by blast
    done
qed

theorem rectangle_edges_same_vertices_witness:
  "(\<exists>vs is is'. generate_rectangle_geometry_data (room 100) bit_ops f1_0 f1_0 1 1 = Some (Inr (vs, is))
          \<and> generate_rectangle_edges_data (room 50) bit_ops f1_0 f1_0 1 1 = Some (Inr (vs, is'))
          \<and> length is = 6 \<and> length is' = 12)"
proof -
  have h: "(1 :: 32 word) \<noteq> - 1"
    "enough_memory (room 100) 4 6" "enough_memory (room 50) 4 12"
    by (simp_all add: enough_memory_def room_def)
  have n: "(unat (1 :: 32 word) + 1) * (unat (1 :: 32 word) + 1) = 4"
    "6 * unat (1 :: 32 word) * unat (1 :: 32 word) = 6"
    "12 * unat (1 :: 32 word) * unat (1 :: 32 word) = 12"
    by simp_all
  note t = rectangle_edges_same_vertices [where m = 1 and n = 1 and ops = bit_ops and w = f1_0
      and h = f1_0 and mem = "room 100" and mem' = "room 50", unfolded n]
  from t h obtain vs "is" where
    g: "generate_rectangle_geometry_data (room 100) bit_ops f1_0 f1_0 1 1 = Some (Inr (vs, is))"
    by blast
  from t h obtain vs' is' where
    d: "generate_rectangle_edges_data (room 50) bit_ops f1_0 f1_0 1 1 = Some (Inr (vs', is'))"
    by blast
  from t g d have "vs' = vs" "length is = 6" "length is' = 12" by blast+
  with g d show ?thesis by blast
qed

section \<open>The claims about the fragment shader and the mesh\<close>

text \<open>
  C8. With texturing enabled the fragment shader gives, for the fragment color \<open>c\<close> and the
  texel \<open>t\<close>, component by component: \<open>c + t\<close> in the mode Addition, \<open>c - t\<close> in
  Subtraction, \<open>t - c\<close> in ReverseSubtraction, \<open>c * t\<close> in Modulation, and in Decaling the
  red, green and blue of \<open>mix(c, t, t.a)\<close> with the alpha of \<open>c\<close>; with texturing disabled
  it gives \<open>c\<close>, whatever the mode.
\<close>

theorem fragment_shader_modes:
  "Fragment_Shader_main ops True TEXTURING_MODE_ADDITION c t =
     \<lparr>v4_x = gl_add ops (v4_x c) (v4_x t), v4_y = gl_add ops (v4_y c) (v4_y t),
      v4_z = gl_add ops (v4_z c) (v4_z t), v4_w = gl_add ops (v4_w c) (v4_w t)\<rparr>
   \<and> Fragment_Shader_main ops True TEXTURING_MODE_SUBTRACTION c t =
     \<lparr>v4_x = gl_sub ops (v4_x c) (v4_x t), v4_y = gl_sub ops (v4_y c) (v4_y t),
      v4_z = gl_sub ops (v4_z c) (v4_z t), v4_w = gl_sub ops (v4_w c) (v4_w t)\<rparr>
   \<and> Fragment_Shader_main ops True TEXTURING_MODE_REVERSE_SUBTRACTION c t =
     \<lparr>v4_x = gl_sub ops (v4_x t) (v4_x c), v4_y = gl_sub ops (v4_y t) (v4_y c),
      v4_z = gl_sub ops (v4_z t) (v4_z c), v4_w = gl_sub ops (v4_w t) (v4_w c)\<rparr>
   \<and> Fragment_Shader_main ops True TEXTURING_MODE_MODULATION c t =
     \<lparr>v4_x = gl_mul ops (v4_x c) (v4_x t), v4_y = gl_mul ops (v4_y c) (v4_y t),
      v4_z = gl_mul ops (v4_z c) (v4_z t), v4_w = gl_mul ops (v4_w c) (v4_w t)\<rparr>
   \<and> Fragment_Shader_main ops True TEXTURING_MODE_DECALING c t =
     \<lparr>v4_x = gl_mix ops (v4_x c) (v4_x t) (v4_w t), v4_y = gl_mix ops (v4_y c) (v4_y t) (v4_w t),
      v4_z = gl_mix ops (v4_z c) (v4_z t) (v4_w t), v4_w = v4_w c\<rparr>
   \<and> Fragment_Shader_main ops False mode c t = c"
  by (simp add: Fragment_Shader_main_def vec4_add_def vec4_sub_def vec4_mul_def assign_rgb_def
      vec3_mix_def rgb_def TEXTURING_MODE_ADDITION_def TEXTURING_MODE_SUBTRACTION_def
      TEXTURING_MODE_REVERSE_SUBTRACTION_def TEXTURING_MODE_MODULATION_def
      TEXTURING_MODE_DECALING_def)

text \<open>
  C10. A \<open>Mesh\<close> built from a geometry and a material alone has the name
  \<open>untitled mesh\<close>, position and rotation \<open>(0, 0, 0)\<close>, scale \<open>(1, 1, 1)\<close> and no parent;
  and for every \<open>Mesh\<close>, with whatever arguments it was built, \<open>get_geometry()\<close> and
  \<open>get_material()\<close> give the two shared pointers passed to the constructor.
\<close>

theorem mesh_defaults_and_getters:
  "object_name (Mesh_of g m) = ''untitled mesh''
   \<and> object_position (Mesh_of g m) = \<lparr>v3_x = f0_0, v3_y = f0_0, v3_z = f0_0\<rparr>
   \<and> object_rotation (Mesh_of g m) = \<lparr>v3_x = f0_0, v3_y = f0_0, v3_z = f0_0\<rparr>
   \<and> object_scale (Mesh_of g m) = \<lparr>v3_x = f1_0, v3_y = f1_0, v3_z = f1_0\<rparr>
   \<and> object_parent (Mesh_of g m) = weak_ptr None
   \<and> get_geometry (Mesh_of g m) = g \<and> get_material (Mesh_of g m) = m
   \<and> get_geometry (Mesh g m position rotation scale parent) = g
   \<and> get_material (Mesh g m position rotation scale parent) = m
   \<and> object_name (Mesh g m position rotation scale parent) = ''untitled mesh''"
  by (simp add: Mesh_of_def Mesh_def get_geometry_def get_material_def Mesh_default_position_def
      Mesh_default_rotation_def Mesh_default_scale_def Mesh_default_parent_def
      glm_vec3_of_vec4_def glm_vec4_def)

end
